theory Spec2Isabelle
  imports Main "HOL-Library.Monad_Syntax"
begin

section \<open>Values held by the relational store\<close>

text \<open>
  The schema (\<^verbatim>\<open>shared/schema.ts\<close>) keys every table by a \<^verbatim>\<open>varchar\<close> id whose
  default is \<^verbatim>\<open>gen_random_uuid()\<close>, stamps rows with \<^verbatim>\<open>defaultNow()\<close> and keeps money
  and quantities in \<^verbatim>\<open>decimal(p, s)\<close> columns.  The store is the PostgreSQL server that
  \<^verbatim>\<open>drizzle.config.ts\<close> and the module \<^verbatim>\<open>db\<close> connect to.

  Identifiers are strings.  Instants are integers counting milliseconds (the resolution of
  the \<^verbatim>\<open>Date\<close> values the server compares them with).  A \<^verbatim>\<open>decimal(p, s)\<close> value is
  the integer number of units of \<open>10\<^sup>-\<^sup>s\<close> it holds, so a stock of \<^verbatim>\<open>12.500\<close> (scale 3) is
  \<open>12500\<close> and an amount of \<^verbatim>\<open>390.50\<close> (scale 2) is \<open>39050\<close>.
\<close>

type_synonym ident = string
type_synonym timestamp = int
type_synonym decimal = int

datatype storage_error =
    invalid_text_representation
  | numeric_value_out_of_range
  | not_null_violation
  | foreign_key_violation
  | unique_violation

definition and_then :: "'e + 'a \<Rightarrow> ('a \<Rightarrow> 'e + 'b) \<Rightarrow> 'e + 'b" where
  "and_then r f = (case r of Inl e \<Rightarrow> Inl e | Inr v \<Rightarrow> f v)"

subsection \<open>Decimal text\<close>

text \<open>
  The server hands decimals to the store as text (drizzle maps \<^verbatim>\<open>decimal\<close> columns to
  \<^verbatim>\<open>string\<close>), and the store reads the text of a parameter as its type \<^verbatim>\<open>numeric\<close>
  does: blanks, an optional sign, digits with at most one point among them and at least
  one digit, an optional exponent (\<^verbatim>\<open>e\<close>, an optional sign, digits), blanks.  What is
  read is exact: the pair \<open>(m, k)\<close> stands for the number \<open>m / 10\<^sup>k\<close>, so \<^verbatim>\<open>1.2345\<close> reads
  as \<open>(12345, 4)\<close> and \<^verbatim>\<open>2e1\<close> as \<open>(20, 0)\<close>.

  A parameter is refused as out of range when its exponent is 1073741823 or more in
  either direction, when it has more than 16383 decimals, or when it has more than 131072
  digits before the point.

  Outside the model, and read as invalid: the values that are no decimal number
  (\<^verbatim>\<open>NaN\<close>, \<^verbatim>\<open>Infinity\<close>) and the spellings that only some versions of the server
  accept (hexadecimal, octal and binary integers and underscores between digits, from
  version 16 on; a blank between \<^verbatim>\<open>e\<close> and the exponent, up to version 15).
\<close>

type_synonym exact = "int \<times> nat"

definition is_digit :: "char \<Rightarrow> bool" where
  "is_digit c = (48 \<le> (of_char c :: nat) \<and> (of_char c :: nat) \<le> 57)"

definition is_space :: "char \<Rightarrow> bool" where
  "is_space c = ((9 \<le> (of_char c :: nat) \<and> (of_char c :: nat) \<le> 13) \<or> (of_char c :: nat) = 32)"

definition digit_val :: "char \<Rightarrow> nat" where
  "digit_val c = of_char c - 48"

fun digits_val :: "nat \<Rightarrow> string \<Rightarrow> nat" where
  "digits_val acc [] = acc"
| "digits_val acc (c # cs) = digits_val (acc * 10 + digit_val c) cs"

text \<open>
  The exponent at the head of a text, with the text that follows it: nothing (exponent
  0), or \<^verbatim>\<open>e\<close>, an optional sign and at least one digit.
\<close>

definition exponent_in :: "string \<Rightarrow> (int \<times> string) option" where
  "exponent_in r =
     (case r of
        [] \<Rightarrow> Some (0, [])
      | c # r1 \<Rightarrow>
          if c = CHR ''e'' \<or> c = CHR ''E'' then
            (let minus = (case r1 of [] \<Rightarrow> False | s # _ \<Rightarrow> s = CHR ''-'');
                 r2 = (case r1 of [] \<Rightarrow> []
                       | s # r' \<Rightarrow> if s = CHR ''-'' \<or> s = CHR ''+'' then r' else r1);
                 n = int (digits_val 0 (takeWhile is_digit r2))
             in if takeWhile is_digit r2 = [] then None
                else Some (if minus then - n else n, dropWhile is_digit r2))
          else Some (0, r))"

text \<open>
  The number written by the digits \<open>ds\<close>, the last \<open>f\<close> of them after the point, times
  \<open>10\<^sup>e\<close>; and the limits of the store's format on it.
\<close>

definition scaled :: "nat \<Rightarrow> nat \<Rightarrow> int \<Rightarrow> exact" where
  "scaled m f e =
     (if e \<le> int f then (int m, nat (int f - e)) else (int m * 10 ^ nat (e - int f), 0))"

definition numeric_format :: "string \<Rightarrow> nat \<Rightarrow> int \<Rightarrow> storage_error + exact" where
  "numeric_format ds f e =
     (let significant = dropWhile (\<lambda>c. c = CHR ''0'') ds in
      if 16383 < int f - e then Inl numeric_value_out_of_range
      else if significant \<noteq> [] \<and> 131072 < int (length significant) + e - int f
        then Inl numeric_value_out_of_range
      else Inr (scaled (digits_val 0 ds) f e))"

definition unsigned_in :: "string \<Rightarrow> storage_error + exact" where
  "unsigned_in r =
     (let ip = takeWhile is_digit r;
          r1 = dropWhile is_digit r;
          point = (case r1 of [] \<Rightarrow> False | c # _ \<Rightarrow> c = CHR ''.'');
          fp = (if point then takeWhile is_digit (tl r1) else []);
          r2 = (if point then dropWhile is_digit (tl r1) else r1)
      in if ip = [] \<and> fp = [] then Inl invalid_text_representation
         else case exponent_in r2 of
                None \<Rightarrow> Inl invalid_text_representation
              | Some (e, r3) \<Rightarrow>
                  if 1073741823 \<le> \<bar>e\<bar> then Inl numeric_value_out_of_range
                  else if \<not> list_all is_space r3 then Inl invalid_text_representation
                  else numeric_format (ip @ fp) (length fp) e)"

definition numeric_in :: "string \<Rightarrow> storage_error + exact" where
  "numeric_in r =
     (case dropWhile is_space r of
        [] \<Rightarrow> Inl invalid_text_representation
      | c # r1 \<Rightarrow>
          if c = CHR ''-'' then and_then (unsigned_in r1) (\<lambda>(m, k). Inr (- m, k))
          else if c = CHR ''+'' then unsigned_in r1
          else unsigned_in (c # r1))"

text \<open>
  Putting a number in a \<^verbatim>\<open>decimal(p, s)\<close> column rounds it to \<open>s\<close> decimals, a half
  away from zero, and then requires at most \<open>p - s\<close> digits before the point, that is, at
  most \<open>p\<close> digits as a scaled integer.
\<close>

definition round_div :: "int \<Rightarrow> int \<Rightarrow> int" where
  "round_div n d =
     (if 0 \<le> n then (2 * n + d) div (2 * d) else - ((2 * (- n) + d) div (2 * d)))"

definition rescale :: "nat \<Rightarrow> exact \<Rightarrow> decimal" where
  "rescale s x = (case x of (m, k) \<Rightarrow>
     if k \<le> s then m * 10 ^ (s - k) else round_div m (10 ^ (k - s)))"

definition fits :: "nat \<Rightarrow> decimal \<Rightarrow> bool" where
  "fits p v = (\<bar>v\<bar> < 10 ^ p)"

definition coerce :: "nat \<Rightarrow> nat \<Rightarrow> exact \<Rightarrow> storage_error + decimal" where
  "coerce p s x =
     (if fits p (rescale s x) then Inr (rescale s x) else Inl numeric_value_out_of_range)"

text \<open>The text of a parameter stored in a \<^verbatim>\<open>decimal(p, s)\<close> column: read, then put.\<close>

definition numeric :: "nat \<Rightarrow> nat \<Rightarrow> string \<Rightarrow> storage_error + decimal" where
  "numeric p s r = and_then (numeric_in r) (coerce p s)"

text \<open>
  The store prints a \<^verbatim>\<open>decimal(10, 2)\<close> with both fractional digits; rows come back to the
  server in that form (\<^verbatim>\<open>order.totalAmount\<close> is such a string).
\<close>

definition digit_char :: "nat \<Rightarrow> char" where
  "digit_char n = char_of (48 + n)"

fun digits_of :: "nat \<Rightarrow> string" where
  "digits_of n = (if n < 10 then [digit_char n] else digits_of (n div 10) @ [digit_char (n mod 10)])"

declare digits_of.simps [simp del]

definition decimal2_out :: "decimal \<Rightarrow> string" where
  "decimal2_out v =
     (let a = nat \<bar>v\<bar> in
      (if v < 0 then ''-'' else '''') @ digits_of (a div 100) @
      [CHR ''.'', digit_char (a mod 100 div 10), digit_char (a mod 10)])"

section \<open>Tables\<close>

text \<open>
  One record per table of \<^verbatim>\<open>shared/schema.ts\<close>, one field per column, a nullable
  column as an \<open>option\<close>.  Of \<^verbatim>\<open>products\<close> the columns kept are the ones some modelled
  operation reads or writes, with the name, price and unit; of \<^verbatim>\<open>users\<close> and
  \<^verbatim>\<open>customers\<close>, which are only referenced, the keys.  A table is the list of its rows
  in insertion order.
\<close>

record Product =
  p_id :: ident
  p_name :: string
  p_userId :: ident
  p_price :: decimal
  p_stock :: decimal
  p_unit :: string
  p_minStock :: "decimal option"

record Order =
  o_id :: ident
  o_orderNumber :: string
  o_customerId :: "ident option"
  o_userId :: ident
  o_status :: string
  o_paymentStatus :: string
  o_paymentMethod :: "string option"
  o_upiApp :: "string option"
  o_totalAmount :: decimal
  o_paidAmount :: "decimal option"
  o_discountAmount :: "decimal option"
  o_gstAmount :: "decimal option"
  o_deliveryAddress :: "string option"
  o_deliveryLandmark :: "string option"
  o_notes :: "string option"
  o_isOfflineOrder :: "bool option"
  o_syncedAt :: "timestamp option"
  o_createdAt :: "timestamp option"
  o_updatedAt :: "timestamp option"

record OrderItem =
  oi_id :: ident
  oi_orderId :: ident
  oi_productId :: ident
  oi_quantity :: decimal
  oi_unitPrice :: decimal
  oi_totalPrice :: decimal
  oi_gstRate :: "decimal option"

record Transaction =
  t_id :: ident
  t_orderId :: "ident option"
  t_customerId :: "ident option"
  t_userId :: ident
  t_type :: string
  t_amount :: decimal
  t_paymentMethod :: string
  t_upiApp :: "string option"
  t_upiTransactionId :: "string option"
  t_description :: "string option"
  t_isOfflineTransaction :: "bool option"
  t_syncedAt :: "timestamp option"
  t_createdAt :: "timestamp option"

record StockMovement =
  sm_id :: ident
  sm_productId :: ident
  sm_userId :: ident
  sm_type :: string
  sm_quantity :: decimal
  sm_reason :: "string option"
  sm_orderId :: "ident option"
  sm_notes :: "string option"
  sm_createdAt :: "timestamp option"

record db =
  users :: "ident list"
  customers :: "ident list"
  products :: "Product list"
  orders :: "Order list"
  orderItems :: "OrderItem list"
  transactions :: "Transaction list"
  stockMovements :: "StockMovement list"

section \<open>Values passed to the store\<close>

text \<open>
  A property of an object handed to an insert is \<^verbatim>\<open>undefined\<close> (the column default
  applies), \<^verbatim>\<open>null\<close>, or a value.  \<open>InsertOrder\<close> is the type inferred from
  \<^verbatim>\<open>insertOrderSchema\<close>: columns that are \<^verbatim>\<open>notNull\<close> without default are required,
  \<^verbatim>\<open>notNull\<close> with a default may be left out, the others may be left out or null.
  \<open>InsertOrder_userId\<close> is \<^verbatim>\<open>InsertOrder & { userId: string }\<close>.
\<close>

datatype 'a optional = Undefined | Null | Given 'a

record InsertOrder =
  io_orderNumber :: string
  io_customerId :: "ident optional"
  io_status :: "string option"
  io_paymentStatus :: "string option"
  io_paymentMethod :: "string optional"
  io_upiApp :: "string optional"
  io_totalAmount :: string
  io_paidAmount :: "string optional"
  io_discountAmount :: "string optional"
  io_gstAmount :: "string optional"
  io_deliveryAddress :: "string optional"
  io_deliveryLandmark :: "string optional"
  io_notes :: "string optional"
  io_isOfflineOrder :: "bool optional"
  io_syncedAt :: "timestamp optional"

record InsertOrder_userId = InsertOrder +
  io_userId :: ident

text \<open>
  The line items reach \<^verbatim>\<open>createOrder\<close> as the request carried them (the route passes
  \<^verbatim>\<open>req.body.items\<close> on unparsed), so an item can carry an \<^verbatim>\<open>id\<close>, which
  \<^verbatim>\<open>InsertOrderItem\<close> does not declare, and can lack a property that it declares
  required.  The columns \<^verbatim>\<open>id\<close> and \<^verbatim>\<open>gst_rate\<close> have a default, so for them
  \<^verbatim>\<open>undefined\<close> and \<^verbatim>\<open>null\<close> are told apart.  The other columns have none and are
  \<^verbatim>\<open>notNull\<close>: left out or null, the store is given null for them either way, and
  \<open>None\<close> stands for both.  Items that are not objects of strings are outside the
  model.
\<close>

record InsertOrderItem =
  ii_id :: "ident optional"
  ii_orderId :: "ident option"
  ii_productId :: "ident option"
  ii_quantity :: "string option"
  ii_unitPrice :: "string option"
  ii_totalPrice :: "string option"
  ii_gstRate :: "string optional"

record InsertStockMovement =
  ism_productId :: "ident option"
  ism_userId :: ident
  ism_type :: string
  ism_quantity :: string
  ism_reason :: "string option"
  ism_orderId :: "ident option"
  ism_notes :: "string option"

record InsertTransaction =
  it_orderId :: "ident option"
  it_customerId :: "ident option"
  it_userId :: ident
  it_type :: string
  it_amount :: string
  it_paymentMethod :: string
  it_upiApp :: "string option"
  it_upiTransactionId :: "string option"
  it_description :: "string option"
  it_isOfflineTransaction :: "bool optional"
  it_syncedAt :: "timestamp option"

definition nullable :: "'a optional \<Rightarrow> 'a option" where
  "nullable x = (case x of Given v \<Rightarrow> Some v | _ \<Rightarrow> None)"

definition defaulted :: "'a \<Rightarrow> 'a optional \<Rightarrow> 'a option" where
  "defaulted d x = (case x of Undefined \<Rightarrow> Some d | Null \<Rightarrow> None | Given v \<Rightarrow> Some v)"

definition null_if_absent :: "'a option \<Rightarrow> 'a optional" where
  "null_if_absent x = (case x of None \<Rightarrow> Null | Some v \<Rightarrow> Given v)"

text \<open>
  A statement is carried out in two steps.  First the text of every decimal parameter is
  read, in the order of the parameters; text that does not read fails the statement
  there.  Then the values are put in their columns (rounded, and checked against the
  precision), the default standing in for what was left out; then come the checks for
  \<^verbatim>\<open>NOT NULL\<close>, for the primary key and for the foreign keys.
\<close>

definition optional_in :: "string optional \<Rightarrow> storage_error + exact optional" where
  "optional_in x =
     (case x of
        Undefined \<Rightarrow> Inr Undefined
      | Null \<Rightarrow> Inr Null
      | Given r \<Rightarrow> and_then (numeric_in r) (\<lambda>v. Inr (Given v)))"

definition coerce_optional ::
  "nat \<Rightarrow> nat \<Rightarrow> decimal \<Rightarrow> exact optional \<Rightarrow> storage_error + decimal option" where
  "coerce_optional p s d x =
     (case x of
        Undefined \<Rightarrow> Inr (Some d)
      | Null \<Rightarrow> Inr None
      | Given v \<Rightarrow> and_then (coerce p s v) (\<lambda>c. Inr (Some c)))"

text \<open>A foreign key that may be null.\<close>

definition references_ok :: "ident option \<Rightarrow> ident list \<Rightarrow> bool" where
  "references_ok k keys = (case k of None \<Rightarrow> True | Some i \<Rightarrow> i \<in> set keys)"


section \<open>Statements inside a transaction\<close>

text \<open>
  \<^verbatim>\<open>db.transaction(async (tx) => ...)\<close> runs its callback against a private view of the
  store.  The view \<open>tx_db\<close> is carried with two pieces of bookkeeping: \<open>tx_log\<close>, the
  statements issued so far, oldest first (a statement is logged when it is sent, whether
  or not the store accepts it), and \<open>tx_drawn\<close>, the number of ids generated so far.
  The values \<^verbatim>\<open>gen_random_uuid()\<close> returns during one call are an input \<open>g\<close> of the
  call: \<open>g k\<close> is the \<open>k\<close>-th value drawn.  Nothing is assumed about \<open>g\<close>; the primary
  keys reject a value that is already taken.  \<open>now\<close> is the value of \<^verbatim>\<open>now()\<close>, which is
  the same for every statement of a transaction.
\<close>

datatype statement =
    InsertOrders InsertOrder_userId
  | InsertOrderItems InsertOrderItem
  | UpdateProductsStock "string option" "ident option"
  | InsertStockMovements InsertStockMovement

record tx =
  tx_db :: db
  tx_log :: "statement list"
  tx_drawn :: nat

type_synonym 'a tx_result = "(storage_error + 'a) \<times> tx"

definition issue :: "statement \<Rightarrow> tx \<Rightarrow> tx" where
  "issue st t = t\<lparr>tx_log := tx_log t @ [st]\<rparr>"

subsection \<open>\<^verbatim>\<open>insert into orders ... returning *\<close>\<close>

definition order_row :: "ident \<Rightarrow> timestamp \<Rightarrow> InsertOrder_userId \<Rightarrow> db \<Rightarrow> storage_error + Order" where
  "order_row newId now v d =
     and_then (numeric_in (io_totalAmount v)) (\<lambda>amount_read.
     and_then (optional_in (io_paidAmount v)) (\<lambda>paid_read.
     and_then (optional_in (io_discountAmount v)) (\<lambda>discount_read.
     and_then (optional_in (io_gstAmount v)) (\<lambda>gst_read.
     and_then (coerce 10 2 amount_read) (\<lambda>amount.
     and_then (coerce_optional 10 2 0 paid_read) (\<lambda>paid.
     and_then (coerce_optional 10 2 0 discount_read) (\<lambda>discount.
     and_then (coerce_optional 10 2 0 gst_read) (\<lambda>gst.
      if newId \<in> set (map o_id (orders d)) then Inl unique_violation
      else if io_userId v \<notin> set (users d) then Inl foreign_key_violation
      else if \<not> references_ok (nullable (io_customerId v)) (customers d)
        then Inl foreign_key_violation
      else Inr \<lparr>
        o_id = newId,
        o_orderNumber = io_orderNumber v,
        o_customerId = nullable (io_customerId v),
        o_userId = io_userId v,
        o_status = (case io_status v of None \<Rightarrow> ''pending'' | Some x \<Rightarrow> x),
        o_paymentStatus = (case io_paymentStatus v of None \<Rightarrow> ''pending'' | Some x \<Rightarrow> x),
        o_paymentMethod = nullable (io_paymentMethod v),
        o_upiApp = nullable (io_upiApp v),
        o_totalAmount = amount,
        o_paidAmount = paid,
        o_discountAmount = discount,
        o_gstAmount = gst,
        o_deliveryAddress = nullable (io_deliveryAddress v),
        o_deliveryLandmark = nullable (io_deliveryLandmark v),
        o_notes = nullable (io_notes v),
        o_isOfflineOrder = defaulted False (io_isOfflineOrder v),
        o_syncedAt = nullable (io_syncedAt v),
        o_createdAt = Some now,
        o_updatedAt = Some now\<rparr>))))))))"

definition tx_insert_orders ::
  "(nat \<Rightarrow> ident) \<Rightarrow> timestamp \<Rightarrow> InsertOrder_userId \<Rightarrow> tx \<Rightarrow> Order tx_result" where
  "tx_insert_orders g now v t =
     (let t1 = issue (InsertOrders v) t in
      case order_row (g (tx_drawn t1)) now v (tx_db t1) of
        Inl e \<Rightarrow> (Inl e, t1)
      | Inr row \<Rightarrow>
          (Inr row, t1\<lparr>tx_db := (tx_db t1)\<lparr>orders := orders (tx_db t1) @ [row]\<rparr>,
                       tx_drawn := Suc (tx_drawn t1)\<rparr>))"

subsection \<open>\<^verbatim>\<open>insert into order_items\<close>\<close>

text \<open>
  \<open>newId\<close> is the id the store generates when the item carries none; an item that
  carries an id is stored under it, and no id is drawn for it.
\<close>

definition orderItem_row :: "ident \<Rightarrow> InsertOrderItem \<Rightarrow> db \<Rightarrow> storage_error + OrderItem" where
  "orderItem_row newId v d =
     and_then (optional_in (null_if_absent (ii_quantity v))) (\<lambda>quantity_read.
     and_then (optional_in (null_if_absent (ii_unitPrice v))) (\<lambda>unitPrice_read.
     and_then (optional_in (null_if_absent (ii_totalPrice v))) (\<lambda>totalPrice_read.
     and_then (optional_in (ii_gstRate v)) (\<lambda>gstRate_read.
     and_then (coerce_optional 10 3 0 quantity_read) (\<lambda>quantity.
     and_then (coerce_optional 10 2 0 unitPrice_read) (\<lambda>unitPrice.
     and_then (coerce_optional 10 2 0 totalPrice_read) (\<lambda>totalPrice.
     and_then (coerce_optional 5 2 0 gstRate_read) (\<lambda>gstRate.
       case (defaulted newId (ii_id v), ii_orderId v, ii_productId v,
             quantity, unitPrice, totalPrice) of
         (Some i, Some oid, Some pid, Some q, Some up, Some tp) \<Rightarrow>
           if i \<in> set (map oi_id (orderItems d)) then Inl unique_violation
           else if oid \<notin> set (map o_id (orders d)) then Inl foreign_key_violation
           else if pid \<notin> set (map p_id (products d)) then Inl foreign_key_violation
           else Inr \<lparr>
             oi_id = i,
             oi_orderId = oid,
             oi_productId = pid,
             oi_quantity = q,
             oi_unitPrice = up,
             oi_totalPrice = tp,
             oi_gstRate = gstRate\<rparr>
       | _ \<Rightarrow> Inl not_null_violation))))))))"

definition tx_insert_orderItems :: "(nat \<Rightarrow> ident) \<Rightarrow> InsertOrderItem \<Rightarrow> tx \<Rightarrow> unit tx_result" where
  "tx_insert_orderItems g v t =
     (let t1 = issue (InsertOrderItems v) t in
      case orderItem_row (g (tx_drawn t1)) v (tx_db t1) of
        Inl e \<Rightarrow> (Inl e, t1)
      | Inr row \<Rightarrow>
          (Inr (), t1\<lparr>tx_db := (tx_db t1)\<lparr>orderItems := orderItems (tx_db t1) @ [row]\<rparr>,
                      tx_drawn := (if ii_id v = Undefined then Suc (tx_drawn t1)
                                   else tx_drawn t1)\<rparr>))"

subsection \<open>\<^verbatim>\<open>update products set stock = stock - $1 where id = $2\<close>\<close>

text \<open>
  The update is relative and has no other condition than the key.  The parameter is read
  as a number, exactly, whatever its decimals; every row with that id gets
  \<open>stock - quantity\<close>, rounded to the three decimals of the column.  The statement fails
  when the parameter does not read or a new value does not fit \<^verbatim>\<open>decimal(10, 3)\<close>; it
  succeeds, changing nothing, when no row has the id.  The stock on hand is not compared
  with the quantity.  (A parameter that is \<^verbatim>\<open>undefined\<close> is refused before the statement is
  sent; the loop of \<^verbatim>\<open>createOrder\<close> never gets there, the insert before it having been
  refused for the same item.)
\<close>

definition minus_exact :: "decimal \<Rightarrow> exact \<Rightarrow> exact" where
  "minus_exact stock x = (case x of (m, k) \<Rightarrow>
     if k \<le> 3 then (stock - m * 10 ^ (3 - k), 3) else (stock * 10 ^ (k - 3) - m, k))"

definition decrement :: "ident option \<Rightarrow> exact \<Rightarrow> Product \<Rightarrow> Product" where
  "decrement pid x p =
     (if Some (p_id p) = pid then p\<lparr>p_stock := rescale 3 (minus_exact (p_stock p) x)\<rparr> else p)"

definition tx_update_products_stock :: "string option \<Rightarrow> ident option \<Rightarrow> tx \<Rightarrow> unit tx_result" where
  "tx_update_products_stock quantity pid t =
     (let t1 = issue (UpdateProductsStock quantity pid) t in
      case (quantity, pid) of
        (Some r, Some i) \<Rightarrow>
          (case numeric_in r of
             Inl e \<Rightarrow> (Inl e, t1)
           | Inr x \<Rightarrow>
               if list_all (\<lambda>p. fits 10 (p_stock (decrement pid x p)))
                    (filter (\<lambda>p. Some (p_id p) = pid) (products (tx_db t1)))
               then (Inr (), t1\<lparr>tx_db := (tx_db t1)\<lparr>products :=
                                  map (decrement pid x) (products (tx_db t1))\<rparr>\<rparr>)
               else (Inl numeric_value_out_of_range, t1))
      | _ \<Rightarrow> (Inl invalid_text_representation, t1))"

subsection \<open>\<^verbatim>\<open>insert into stock_movements\<close>\<close>

definition stockMovement_row ::
  "ident \<Rightarrow> timestamp \<Rightarrow> InsertStockMovement \<Rightarrow> db \<Rightarrow> storage_error + StockMovement" where
  "stockMovement_row newId now v d =
     and_then (numeric 10 3 (ism_quantity v)) (\<lambda>quantity.
       case ism_productId v of
         None \<Rightarrow> Inl not_null_violation
       | Some pid \<Rightarrow>
           if newId \<in> set (map sm_id (stockMovements d)) then Inl unique_violation
           else if pid \<notin> set (map p_id (products d)) then Inl foreign_key_violation
           else if ism_userId v \<notin> set (users d) then Inl foreign_key_violation
           else if \<not> references_ok (ism_orderId v) (map o_id (orders d))
             then Inl foreign_key_violation
           else Inr \<lparr>
             sm_id = newId,
             sm_productId = pid,
             sm_userId = ism_userId v,
             sm_type = ism_type v,
             sm_quantity = quantity,
             sm_reason = ism_reason v,
             sm_orderId = ism_orderId v,
             sm_notes = ism_notes v,
             sm_createdAt = Some now\<rparr>)"

definition tx_insert_stockMovements ::
  "(nat \<Rightarrow> ident) \<Rightarrow> timestamp \<Rightarrow> InsertStockMovement \<Rightarrow> tx \<Rightarrow> unit tx_result" where
  "tx_insert_stockMovements g now v t =
     (let t1 = issue (InsertStockMovements v) t in
      case stockMovement_row (g (tx_drawn t1)) now v (tx_db t1) of
        Inl e \<Rightarrow> (Inl e, t1)
      | Inr row \<Rightarrow>
          (Inr (), t1\<lparr>tx_db := (tx_db t1)\<lparr>stockMovements := stockMovements (tx_db t1) @ [row]\<rparr>,
                      tx_drawn := Suc (tx_drawn t1)\<rparr>))"

subsection \<open>Commit and rollback\<close>

text \<open>
  The callback's writes become the store's state when it returns; when it throws, the
  store keeps the state it had before the transaction began and the error is passed on.
\<close>

definition transaction :: "(tx \<Rightarrow> 'a tx_result) \<Rightarrow> db \<Rightarrow> (storage_error + 'a) \<times> db" where
  "transaction body d =
     (case body \<lparr>tx_db = d, tx_log = [], tx_drawn = 0\<rparr> of
        (Inl e, t) \<Rightarrow> (Inl e, d)
      | (Inr v, t) \<Rightarrow> (Inr v, tx_db t))"

section \<open>\<^verbatim>\<open>DatabaseStorage\<close> (\<^verbatim>\<open>server/storage.ts\<close>)\<close>

subsection \<open>\<^verbatim>\<open>createOrder\<close>\<close>

text \<open>
  The template literal \<^verbatim>\<open>`-${item.quantity}`\<close> puts a minus sign in front of the text of
  the quantity.  (A quantity that is missing prints as \<^verbatim>\<open>undefined\<close>; the loop does not
  get that far with such an item.)
\<close>

definition negated :: "string option \<Rightarrow> string" where
  "negated quantity = CHR ''-'' # (case quantity of None \<Rightarrow> ''undefined'' | Some q \<Rightarrow> q)"

definition sale_movement :: "InsertOrder_userId \<Rightarrow> Order \<Rightarrow> InsertOrderItem \<Rightarrow> InsertStockMovement" where
  "sale_movement order newOrder item = \<lparr>
     ism_productId = ii_productId item,
     ism_userId = io_userId order,
     ism_type = ''out'',
     ism_quantity = negated (ii_quantity item),
     ism_reason = Some ''sale'',
     ism_orderId = Some (o_id newOrder),
     ism_notes = None\<rparr>"

fun createOrder_items ::
  "(nat \<Rightarrow> ident) \<Rightarrow> timestamp \<Rightarrow> InsertOrder_userId \<Rightarrow> Order \<Rightarrow> InsertOrderItem list \<Rightarrow> tx
     \<Rightarrow> unit tx_result"
where
  "createOrder_items g now order newOrder [] t = (Inr (), t)"
| "createOrder_items g now order newOrder (item # items) t =
     (case tx_insert_orderItems g (item\<lparr>ii_orderId := Some (o_id newOrder)\<rparr>) t of
        (Inl e, t1) \<Rightarrow> (Inl e, t1)
      | (Inr _, t1) \<Rightarrow>
     (case tx_update_products_stock (ii_quantity item) (ii_productId item) t1 of
        (Inl e, t2) \<Rightarrow> (Inl e, t2)
      | (Inr _, t2) \<Rightarrow>
     (case tx_insert_stockMovements g now (sale_movement order newOrder item) t2 of
        (Inl e, t3) \<Rightarrow> (Inl e, t3)
      | (Inr _, t3) \<Rightarrow> createOrder_items g now order newOrder items t3)))"

definition createOrder_body ::
  "(nat \<Rightarrow> ident) \<Rightarrow> timestamp \<Rightarrow> InsertOrder_userId \<Rightarrow> InsertOrderItem list \<Rightarrow> tx
     \<Rightarrow> Order tx_result" where
  "createOrder_body g now order items t =
     (case tx_insert_orders g now order t of
        (Inl e, t1) \<Rightarrow> (Inl e, t1)
      | (Inr newOrder, t1) \<Rightarrow>
     (case createOrder_items g now order newOrder items t1 of
        (Inl e, t2) \<Rightarrow> (Inl e, t2)
      | (Inr _, t2) \<Rightarrow> (Inr newOrder, t2)))"

definition createOrder ::
  "(nat \<Rightarrow> ident) \<Rightarrow> timestamp \<Rightarrow> InsertOrder_userId \<Rightarrow> InsertOrderItem list \<Rightarrow> db
     \<Rightarrow> (storage_error + Order) \<times> db" where
  "createOrder g now order items = transaction (createOrder_body g now order items)"


subsection \<open>\<^verbatim>\<open>createTransaction\<close>\<close>

text \<open>A single insert on the store itself, outside any transaction; \<open>newId\<close> is the id drawn.\<close>

definition transaction_row ::
  "ident \<Rightarrow> timestamp \<Rightarrow> InsertTransaction \<Rightarrow> db \<Rightarrow> storage_error + Transaction" where
  "transaction_row newId now v d =
     and_then (numeric 10 2 (it_amount v)) (\<lambda>amount.
      if newId \<in> set (map t_id (transactions d)) then Inl unique_violation
      else if it_userId v \<notin> set (users d) then Inl foreign_key_violation
      else if \<not> references_ok (it_orderId v) (map o_id (orders d))
        then Inl foreign_key_violation
      else if \<not> references_ok (it_customerId v) (customers d)
        then Inl foreign_key_violation
      else Inr \<lparr>
        t_id = newId,
        t_orderId = it_orderId v,
        t_customerId = it_customerId v,
        t_userId = it_userId v,
        t_type = it_type v,
        t_amount = amount,
        t_paymentMethod = it_paymentMethod v,
        t_upiApp = it_upiApp v,
        t_upiTransactionId = it_upiTransactionId v,
        t_description = it_description v,
        t_isOfflineTransaction = defaulted False (it_isOfflineTransaction v),
        t_syncedAt = it_syncedAt v,
        t_createdAt = Some now\<rparr>)"

definition createTransaction ::
  "ident \<Rightarrow> timestamp \<Rightarrow> InsertTransaction \<Rightarrow> db \<Rightarrow> (storage_error + Transaction) \<times> db" where
  "createTransaction newId now v d =
     (case transaction_row newId now v d of
        Inl e \<Rightarrow> (Inl e, d)
      | Inr row \<Rightarrow> (Inr row, d\<lparr>transactions := transactions d @ [row]\<rparr>))"

subsection \<open>\<^verbatim>\<open>getLowStockProducts\<close>\<close>

text \<open>
  \<^verbatim>\<open>where user_id = $1 and stock <= min_stock\<close>.  \<^verbatim>\<open>min_stock\<close> is nullable; a comparison
  with null is not true, so such a row is not selected.
\<close>

definition stock_le_minStock :: "Product \<Rightarrow> bool" where
  "stock_le_minStock p = (case p_minStock p of None \<Rightarrow> False | Some m \<Rightarrow> p_stock p \<le> m)"

definition getLowStockProducts :: "ident \<Rightarrow> db \<Rightarrow> Product list" where
  "getLowStockProducts userId d =
     filter (\<lambda>p. p_userId p = userId \<and> stock_le_minStock p) (products d)"

subsection \<open>\<^verbatim>\<open>getDailySales\<close>\<close>

text \<open>
  \<^verbatim>\<open>setHours\<close> works in the local time of the server process.  The time zone of the
  process is an input: \<open>LocalTime z t\<close> is the local time value of the instant \<open>t\<close> and
  \<open>UTC z\<close> leads back from local time values to instants, as the operations of these
  names do in the language definition.  \<^verbatim>\<open>setHours(hour, min, sec, ms)\<close> keeps the local
  day of the instant and replaces the time within the day.
\<close>

record zone =
  LocalTime :: "timestamp \<Rightarrow> timestamp"
  UTC :: "timestamp \<Rightarrow> timestamp"

definition setHours :: "zone \<Rightarrow> int \<Rightarrow> int \<Rightarrow> int \<Rightarrow> int \<Rightarrow> timestamp \<Rightarrow> timestamp" where
  "setHours z hour minute sec ms date =
     UTC z (LocalTime z date div 86400000 * 86400000 +
            (hour * 3600000 + minute * 60000 + sec * 1000 + ms))"

text \<open>
  The two instants stand in the query as parameters of \<^verbatim>\<open>sql\<close> templates, where no
  column type turns them into text first.  The module \<^verbatim>\<open>db\<close> builds \<^verbatim>\<open>db\<close> as
  \<^verbatim>\<open>drizzle(postgres(connectionString), { schema })\<close> with \<^verbatim>\<open>drizzle\<close> from
  \<^verbatim>\<open>drizzle-orm/postgres-js\<close>.  That driver replaces the client's serializers for dates
  and timestamps by the identity, because it expects the column types to have produced
  text; so a \<^verbatim>\<open>Date\<close> object that is a parameter of its own reaches the client's message
  writer as an object, and the writer, which takes text, throws a \<^verbatim>\<open>TypeError\<close> with the
  code \<^verbatim>\<open>ERR_INVALID_ARG_TYPE\<close>.  The query is not sent.  \<open>query_parameter_Date\<close> is what
  the driver makes of such a parameter; it is modelled from the behaviour of the two
  libraries, which are not part of the repository.
\<close>

datatype driver_error = ERR_INVALID_ARG_TYPE

definition query_parameter_Date :: "timestamp \<Rightarrow> driver_error + timestamp" where
  "query_parameter_Date date = Inl ERR_INVALID_ARG_TYPE"

record DailySales =
  ds_total :: decimal
  ds_upiTotal :: decimal
  ds_count :: nat

definition created_between :: "timestamp \<Rightarrow> timestamp \<Rightarrow> Transaction \<Rightarrow> bool" where
  "created_between lo hi t = (case t_createdAt t of None \<Rightarrow> False | Some c \<Rightarrow> lo \<le> c \<and> c \<le> hi)"

text \<open>
  The select, for parameters that have reached the store.  An aggregate without grouping
  returns exactly one row, which is \<^verbatim>\<open>results[0]\<close>.
\<close>

definition select_daily_sales :: "ident \<Rightarrow> timestamp \<Rightarrow> timestamp \<Rightarrow> db \<Rightarrow> DailySales" where
  "select_daily_sales userId lo hi d =
     (let rows = filter (\<lambda>t. t_userId t = userId \<and> created_between lo hi t) (transactions d)
      in \<lparr>ds_total = sum_list (map (\<lambda>t. if t_type t = ''sale'' then t_amount t else 0) rows),
          ds_upiTotal = sum_list (map (\<lambda>t. if t_type t = ''sale'' \<and> t_paymentMethod t = ''upi''
                                           then t_amount t else 0) rows),
          ds_count = length (filter (\<lambda>t. t_type t = ''sale'') rows)\<rparr>)"

definition getDailySales :: "zone \<Rightarrow> ident \<Rightarrow> timestamp \<Rightarrow> db \<Rightarrow> driver_error + DailySales" where
  "getDailySales z userId date d =
     (let startOfDay = setHours z 0 0 0 0 date;
          endOfDay = setHours z 23 59 59 999 date
      in and_then (query_parameter_Date startOfDay) (\<lambda>lo.
         and_then (query_parameter_Date endOfDay) (\<lambda>hi.
           Inr (select_daily_sales userId lo hi d))))"

section \<open>The route \<^verbatim>\<open>POST /api/orders\<close> (\<^verbatim>\<open>registerRoutes\<close>)\<close>

subsection \<open>Request bodies and \<^verbatim>\<open>insertOrderSchema.parse\<close>\<close>

text \<open>
  The body is parsed JSON.  Validation looks only at the kind of a value, so a number is
  kept as an integer.  A property that is missing reads as \<^verbatim>\<open>undefined\<close>, here \<open>None\<close>.
\<close>

datatype json = JNull | JBool bool | JNum int | JStr string | JArr "json list"
  | JObj "(string \<times> json) list"

text \<open>
  The checks \<^verbatim>\<open>createInsertSchema(orders)\<close> derives from the column definitions:
  a text, varchar or decimal column is a string, a boolean column a boolean, a timestamp
  column a \<^verbatim>\<open>Date\<close> (which no JSON value is).  \<open>None\<close> is a validation issue.
\<close>

definition z_string :: "json option \<Rightarrow> string option" where
  "z_string x = (case x of Some (JStr s) \<Rightarrow> Some s | _ \<Rightarrow> None)"

definition z_string_optional :: "json option \<Rightarrow> string option option" where
  "z_string_optional x =
     (case x of None \<Rightarrow> Some None | Some (JStr s) \<Rightarrow> Some (Some s) | _ \<Rightarrow> None)"

definition z_string_nullish :: "json option \<Rightarrow> string optional option" where
  "z_string_nullish x =
     (case x of None \<Rightarrow> Some Undefined | Some JNull \<Rightarrow> Some Null
      | Some (JStr s) \<Rightarrow> Some (Given s) | _ \<Rightarrow> None)"

definition z_boolean_nullish :: "json option \<Rightarrow> bool optional option" where
  "z_boolean_nullish x =
     (case x of None \<Rightarrow> Some Undefined | Some JNull \<Rightarrow> Some Null
      | Some (JBool b) \<Rightarrow> Some (Given b) | _ \<Rightarrow> None)"

definition z_date_nullish :: "json option \<Rightarrow> timestamp optional option" where
  "z_date_nullish x =
     (case x of None \<Rightarrow> Some Undefined | Some JNull \<Rightarrow> Some Null | _ \<Rightarrow> None)"

datatype ZodError = ZodError

definition insertOrderSchema_fields :: "(string \<times> json) list \<Rightarrow> InsertOrder option" where
  "insertOrderSchema_fields kvs = do {
     orderNumber \<leftarrow> z_string (map_of kvs ''orderNumber'');
     customerId \<leftarrow> z_string_nullish (map_of kvs ''customerId'');
     status \<leftarrow> z_string_optional (map_of kvs ''status'');
     paymentStatus \<leftarrow> z_string_optional (map_of kvs ''paymentStatus'');
     paymentMethod \<leftarrow> z_string_nullish (map_of kvs ''paymentMethod'');
     upiApp \<leftarrow> z_string_nullish (map_of kvs ''upiApp'');
     totalAmount \<leftarrow> z_string (map_of kvs ''totalAmount'');
     paidAmount \<leftarrow> z_string_nullish (map_of kvs ''paidAmount'');
     discountAmount \<leftarrow> z_string_nullish (map_of kvs ''discountAmount'');
     gstAmount \<leftarrow> z_string_nullish (map_of kvs ''gstAmount'');
     deliveryAddress \<leftarrow> z_string_nullish (map_of kvs ''deliveryAddress'');
     deliveryLandmark \<leftarrow> z_string_nullish (map_of kvs ''deliveryLandmark'');
     notes \<leftarrow> z_string_nullish (map_of kvs ''notes'');
     isOfflineOrder \<leftarrow> z_boolean_nullish (map_of kvs ''isOfflineOrder'');
     syncedAt \<leftarrow> z_date_nullish (map_of kvs ''syncedAt'');
     Some \<lparr>
       io_orderNumber = orderNumber,
       io_customerId = customerId,
       io_status = status,
       io_paymentStatus = paymentStatus,
       io_paymentMethod = paymentMethod,
       io_upiApp = upiApp,
       io_totalAmount = totalAmount,
       io_paidAmount = paidAmount,
       io_discountAmount = discountAmount,
       io_gstAmount = gstAmount,
       io_deliveryAddress = deliveryAddress,
       io_deliveryLandmark = deliveryLandmark,
       io_notes = notes,
       io_isOfflineOrder = isOfflineOrder,
       io_syncedAt = syncedAt\<rparr>}"

definition insertOrderSchema_parse :: "json option \<Rightarrow> ZodError + InsertOrder" where
  "insertOrderSchema_parse x =
     (case x of
        Some (JObj kvs) \<Rightarrow>
          (case insertOrderSchema_fields kvs of None \<Rightarrow> Inl ZodError | Some v \<Rightarrow> Inr v)
      | _ \<Rightarrow> Inl ZodError)"

subsection \<open>The handler\<close>

text \<open>
  \<^verbatim>\<open>const { order: orderData, items } = req.body\<close>: the header is any JSON value or missing;
  the items are a list of objects as described with \<open>InsertOrderItem\<close>.
\<close>

record order_request =
  rq_order :: "json option"
  rq_items :: "InsertOrderItem list"

datatype response =
    json_200 Order
  | status_400 string
  | status_500 string

definition with_userId :: "InsertOrder \<Rightarrow> ident \<Rightarrow> InsertOrder_userId" where
  "with_userId v userId = InsertOrder.extend v (InsertOrder_userId.fields userId)"

text \<open>\<^verbatim>\<open>order.paymentMethod || "cash"\<close>: null and the empty string are falsy.\<close>

definition paymentMethod_or_cash :: "string option \<Rightarrow> string" where
  "paymentMethod_or_cash m = (case m of None \<Rightarrow> ''cash'' | Some x \<Rightarrow> if x = [] then ''cash'' else x)"

definition sale_transaction :: "ident \<Rightarrow> Order \<Rightarrow> InsertTransaction" where
  "sale_transaction userId order = \<lparr>
     it_orderId = Some (o_id order),
     it_customerId = o_customerId order,
     it_userId = userId,
     it_type = ''sale'',
     it_amount = decimal2_out (o_totalAmount order),
     it_paymentMethod = paymentMethod_or_cash (o_paymentMethod order),
     it_upiApp = o_upiApp order,
     it_upiTransactionId = None,
     it_description = Some (''Sale for order '' @ o_orderNumber order),
     it_isOfflineTransaction = Undefined,
     it_syncedAt = None\<rparr>"

text \<open>
  \<open>g\<close> and \<open>now\<close> are the ids and the time of the order's transaction, \<open>tid\<close> and \<open>later\<close>
  the id and the time of the ledger insert that follows it.
\<close>

definition post_api_orders ::
  "(nat \<Rightarrow> ident) \<Rightarrow> timestamp \<Rightarrow> ident \<Rightarrow> timestamp \<Rightarrow> order_request \<Rightarrow> db \<Rightarrow> response \<times> db" where
  "post_api_orders g now tid later body d =
     (let userId = ''user-1'' in
      case insertOrderSchema_parse (rq_order body) of
        Inl zodError \<Rightarrow> (status_400 ''Invalid order data'', d)
      | Inr validatedOrder \<Rightarrow>
          (case createOrder g now (with_userId validatedOrder userId) (rq_items body) d of
             (Inl e, d1) \<Rightarrow> (status_500 ''Failed to create order'', d1)
           | (Inr order, d1) \<Rightarrow>
               if o_paymentStatus order = ''paid''
               then (case createTransaction tid later (sale_transaction userId order) d1 of
                       (Inl e, d2) \<Rightarrow> (status_500 ''Failed to create order'', d2)
                     | (Inr _, d2) \<Rightarrow> (json_200 order, d2))
               else (json_200 order, d1)))"


section \<open>Vocabulary of the properties\<close>

text \<open>
  The quantity of a line item: the number its text writes, when the text reads as one;
  and that number as a quantity column holds it, rounded to three decimals (in
  thousandths).  A price likewise, rounded to two decimals (in hundredths).
\<close>

definition quantity_read :: "InsertOrderItem \<Rightarrow> exact option" where
  "quantity_read item =
     (case ii_quantity item of
        None \<Rightarrow> None
      | Some r \<Rightarrow> (case numeric_in r of Inl e \<Rightarrow> None | Inr x \<Rightarrow> Some x))"

definition quantity_value :: "InsertOrderItem \<Rightarrow> decimal option" where
  "quantity_value item = map_option (rescale 3) (quantity_read item)"

definition price_value :: "string option \<Rightarrow> decimal option" where
  "price_value x =
     (case x of
        None \<Rightarrow> None
      | Some r \<Rightarrow> (case numeric_in r of Inl e \<Rightarrow> None | Inr v \<Rightarrow> Some (rescale 2 v)))"

text \<open>The total quantity the items ask of one product, each quantity as a column holds it.\<close>

definition sold :: "ident \<Rightarrow> InsertOrderItem list \<Rightarrow> decimal" where
  "sold pid items =
     sum_list (map (\<lambda>item. case quantity_value item of None \<Rightarrow> 0 | Some q \<Rightarrow> q)
                 (filter (\<lambda>item. ii_productId item = Some pid) items))"

text \<open>An \<^verbatim>\<open>order_items\<close> row that records a line item under an order.\<close>

definition order_item_of :: "Order \<Rightarrow> InsertOrderItem \<Rightarrow> OrderItem \<Rightarrow> bool" where
  "order_item_of newOrder item r =
     (oi_orderId r = o_id newOrder \<and>
      ii_productId item = Some (oi_productId r) \<and>
      quantity_value item = Some (oi_quantity r) \<and>
      price_value (ii_unitPrice item) = Some (oi_unitPrice r) \<and>
      price_value (ii_totalPrice item) = Some (oi_totalPrice r))"

text \<open>A \<^verbatim>\<open>stock_movements\<close> row that records the sale of a line item under an order.\<close>

definition sale_movement_of :: "Order \<Rightarrow> InsertOrderItem \<Rightarrow> StockMovement \<Rightarrow> bool" where
  "sale_movement_of newOrder item m =
     (ii_productId item = Some (sm_productId m) \<and>
      quantity_value item = Some (- sm_quantity m) \<and>
      sm_type m = ''out'' \<and>
      sm_reason m = Some ''sale'' \<and>
      sm_orderId m = Some (o_id newOrder))"

text \<open>The three statements the loop body sends for one item, in the order it sends them.\<close>

definition item_statements :: "InsertOrder_userId \<Rightarrow> Order \<Rightarrow> InsertOrderItem \<Rightarrow> statement list" where
  "item_statements order newOrder item =
     [InsertOrderItems (item\<lparr>ii_orderId := Some (o_id newOrder)\<rparr>),
      UpdateProductsStock (ii_quantity item) (ii_productId item),
      InsertStockMovements (sale_movement order newOrder item)]"

text \<open>The statements one call of \<^verbatim>\<open>createOrder\<close> sends, committed or not.\<close>

definition createOrder_statements ::
  "(nat \<Rightarrow> ident) \<Rightarrow> timestamp \<Rightarrow> InsertOrder_userId \<Rightarrow> InsertOrderItem list \<Rightarrow> db \<Rightarrow> statement list"
where
  "createOrder_statements g now order items d =
     tx_log (snd (createOrder_body g now order items \<lparr>tx_db = d, tx_log = [], tx_drawn = 0\<rparr>))"

text \<open>
  The products once the items have been taken from them, one item after the other: an
  item lowers the stock of the product it names by its quantity as written, and the
  result is rounded to the three decimals of the stock column.
\<close>

definition take_item :: "InsertOrderItem \<Rightarrow> Product list \<Rightarrow> Product list" where
  "take_item item ps =
     (case quantity_read item of
        None \<Rightarrow> ps
      | Some x \<Rightarrow> map (decrement (ii_productId item) x) ps)"

fun stock_taken :: "InsertOrderItem list \<Rightarrow> Product list \<Rightarrow> Product list" where
  "stock_taken [] ps = ps"
| "stock_taken (item # items) ps = stock_taken items (take_item item ps)"

text \<open>
  The quantity of the item is a whole number of thousandths: it is written with at most
  three decimals, or the decimals after the third are zeros.
\<close>

definition whole_thousandths :: "InsertOrderItem \<Rightarrow> bool" where
  "whole_thousandths item =
     (case quantity_read item of
        None \<Rightarrow> False
      | Some (m, k) \<Rightarrow> k \<le> 3 \<or> m mod 10 ^ (k - 3) = 0)"

text \<open>
  Taking the items one after the other from these products, every stock that results on
  the way fits the stock column.
\<close>

fun stock_column_holds :: "InsertOrderItem list \<Rightarrow> Product list \<Rightarrow> bool" where
  "stock_column_holds [] ps = True"
| "stock_column_holds (item # items) ps =
     (list_all (\<lambda>p. fits 10 (p_stock p))
        (filter (\<lambda>p. Some (p_id p) = ii_productId item) (take_item item ps)) \<and>
      stock_column_holds items (take_item item ps))"

text \<open>
  The ids a call draws for \<open>k\<close> items from its \<open>n\<close>-th draw on, one for the item row and
  one for the movement row of each item in turn, are not in use: not among the given ids
  of item rows and of movement rows, and not among those drawn before in the same call.
\<close>

fun draws_free :: "(nat \<Rightarrow> ident) \<Rightarrow> nat \<Rightarrow> nat \<Rightarrow> ident list \<Rightarrow> ident list \<Rightarrow> bool" where
  "draws_free g n 0 item_ids movement_ids = True"
| "draws_free g n (Suc k) item_ids movement_ids =
     (g n \<notin> set item_ids \<and> g (Suc n) \<notin> set movement_ids \<and>
      draws_free g (Suc (Suc n)) k (item_ids @ [g n]) (movement_ids @ [g (Suc n)]))"

text \<open>
  The ledger entry of an order: a sale linked to the order and its customer, for the
  order's total, paid by the order's payment method, or by cash when the order has none.
\<close>

definition ledger_entry_of :: "ident \<Rightarrow> timestamp \<Rightarrow> Order \<Rightarrow> Transaction" where
  "ledger_entry_of newId created order = \<lparr>
     t_id = newId,
     t_orderId = Some (o_id order),
     t_customerId = o_customerId order,
     t_userId = ''user-1'',
     t_type = ''sale'',
     t_amount = o_totalAmount order,
     t_paymentMethod = paymentMethod_or_cash (o_paymentMethod order),
     t_upiApp = o_upiApp order,
     t_upiTransactionId = None,
     t_description = Some (''Sale for order '' @ o_orderNumber order),
     t_isOfflineTransaction = Some False,
     t_syncedAt = None,
     t_createdAt = Some created\<rparr>"

section \<open>A shop for the examples\<close>

text \<open>
  One user, one customer, product A with 10.000 on hand and a minimum of 8.000, product B
  with 0.500 on hand and no minimum.  The ids drawn are \<^verbatim>\<open>u\<close>, \<^verbatim>\<open>ui\<close>, \<^verbatim>\<open>uii\<close>, ...
\<close>

definition uuids :: "nat \<Rightarrow> ident" where
  "uuids n = CHR ''u'' # replicate n CHR ''i''"

definition later_uuids :: "nat \<Rightarrow> ident" where
  "later_uuids n = CHR ''v'' # replicate n CHR ''i''"

definition product_A :: Product where
  "product_A = \<lparr>p_id = ''A'', p_name = ''Product A'', p_userId = ''user-1'', p_price = 5000,
     p_stock = 10000, p_unit = ''pcs'', p_minStock = Some 8000\<rparr>"

definition product_B :: Product where
  "product_B = \<lparr>p_id = ''B'', p_name = ''Product B'', p_userId = ''user-1'', p_price = 2000,
     p_stock = 500, p_unit = ''kg'', p_minStock = None\<rparr>"

definition shop :: db where
  "shop = \<lparr>users = [''user-1''], customers = [''c1''], products = [product_A, product_B],
     orders = [], orderItems = [], transactions = [], stockMovements = []\<rparr>"

definition line :: "ident \<Rightarrow> string \<Rightarrow> string \<Rightarrow> string \<Rightarrow> InsertOrderItem" where
  "line pid quantity unitPrice totalPrice = \<lparr>
     ii_id = Undefined,
     ii_orderId = None,
     ii_productId = Some pid,
     ii_quantity = Some quantity,
     ii_unitPrice = Some unitPrice,
     ii_totalPrice = Some totalPrice,
     ii_gstRate = Given ''18''\<rparr>"

definition two_lines :: "InsertOrderItem list" where
  "two_lines = [line ''A'' ''2'' ''50.00'' ''100.00'', line ''B'' ''1'' ''20.00'' ''20.00'']"

definition three_lines :: "InsertOrderItem list" where
  "three_lines = two_lines @ [line ''C'' ''1'' ''5.00'' ''5.00'']"

definition header :: "string \<Rightarrow> string optional \<Rightarrow> InsertOrder" where
  "header paymentStatus paymentMethod = \<lparr>
     io_orderNumber = ''ORD-1'',
     io_customerId = Given ''c1'',
     io_status = Some ''completed'',
     io_paymentStatus = Some paymentStatus,
     io_paymentMethod = paymentMethod,
     io_upiApp = Undefined,
     io_totalAmount = ''120.00'',
     io_paidAmount = Undefined,
     io_discountAmount = Undefined,
     io_gstAmount = Undefined,
     io_deliveryAddress = Undefined,
     io_deliveryLandmark = Undefined,
     io_notes = Undefined,
     io_isOfflineOrder = Undefined,
     io_syncedAt = Undefined\<rparr>"

definition paid_order :: InsertOrder_userId where
  "paid_order = with_userId (header ''paid'' (Given ''upi'')) ''user-1''"

definition header_json :: "string \<Rightarrow> (string \<times> json) list \<Rightarrow> json" where
  "header_json paymentStatus others =
     JObj ([(''orderNumber'', JStr ''ORD-1''), (''customerId'', JStr ''c1''),
            (''status'', JStr ''completed''), (''paymentStatus'', JStr paymentStatus),
            (''totalAmount'', JStr ''120.00'')] @ others)"


text \<open>
  Requests: the two lines under a header with the given payment status and other
  properties; and one line that lacks its \<^verbatim>\<open>productId\<close> under a valid header.
\<close>

definition request :: "string \<Rightarrow> (string \<times> json) list \<Rightarrow> order_request" where
  "request paymentStatus others =
     \<lparr>rq_order = Some (header_json paymentStatus others), rq_items = two_lines\<rparr>"

definition line_without_product :: InsertOrderItem where
  "line_without_product = \<lparr>
     ii_id = Undefined,
     ii_orderId = None,
     ii_productId = None,
     ii_quantity = Some ''2'',
     ii_unitPrice = Some ''50.00'',
     ii_totalPrice = Some ''100.00'',
     ii_gstRate = Given ''18''\<rparr>"

definition request_without_product :: order_request where
  "request_without_product =
     \<lparr>rq_order = Some (header_json ''paid'' [(''paymentMethod'', JStr ''upi'')]),
      rq_items = [line_without_product]\<rparr>"

text \<open>
  The rows the store holds once the two lines have been sold: the order \<^verbatim>\<open>u\<close> stamped
  at \<open>1000\<close>, and after the same payload is sent again, the order \<^verbatim>\<open>v\<close> stamped at
  \<open>2000\<close>.
\<close>

definition stored_order :: "ident \<Rightarrow> timestamp \<Rightarrow> string \<Rightarrow> string option \<Rightarrow> Order" where
  "stored_order newId now paymentStatus paymentMethod = \<lparr>
     o_id = newId,
     o_orderNumber = ''ORD-1'',
     o_customerId = Some ''c1'',
     o_userId = ''user-1'',
     o_status = ''completed'',
     o_paymentStatus = paymentStatus,
     o_paymentMethod = paymentMethod,
     o_upiApp = None,
     o_totalAmount = 12000,
     o_paidAmount = Some 0,
     o_discountAmount = Some 0,
     o_gstAmount = Some 0,
     o_deliveryAddress = None,
     o_deliveryLandmark = None,
     o_notes = None,
     o_isOfflineOrder = Some False,
     o_syncedAt = None,
     o_createdAt = Some now,
     o_updatedAt = Some now\<rparr>"

definition stored_item :: "ident \<Rightarrow> ident \<Rightarrow> ident \<Rightarrow> decimal \<Rightarrow> decimal \<Rightarrow> decimal \<Rightarrow> OrderItem" where
  "stored_item newId oid pid quantity unitPrice totalPrice = \<lparr>
     oi_id = newId,
     oi_orderId = oid,
     oi_productId = pid,
     oi_quantity = quantity,
     oi_unitPrice = unitPrice,
     oi_totalPrice = totalPrice,
     oi_gstRate = Some 1800\<rparr>"

definition stored_movement :: "ident \<Rightarrow> ident \<Rightarrow> ident \<Rightarrow> decimal \<Rightarrow> timestamp \<Rightarrow> StockMovement" where
  "stored_movement newId oid pid quantity now = \<lparr>
     sm_id = newId,
     sm_productId = pid,
     sm_userId = ''user-1'',
     sm_type = ''out'',
     sm_quantity = quantity,
     sm_reason = Some ''sale'',
     sm_orderId = Some oid,
     sm_notes = None,
     sm_createdAt = Some now\<rparr>"

definition shop_sold_once :: "string \<Rightarrow> string option \<Rightarrow> db" where
  "shop_sold_once paymentStatus paymentMethod = shop\<lparr>
     products := [product_A\<lparr>p_stock := 8000\<rparr>, product_B\<lparr>p_stock := - 500\<rparr>],
     orders := [stored_order ''u'' 1000 paymentStatus paymentMethod],
     orderItems := [stored_item ''ui'' ''u'' ''A'' 2000 5000 10000,
                    stored_item ''uiii'' ''u'' ''B'' 1000 2000 2000],
     stockMovements := [stored_movement ''uii'' ''u'' ''A'' (- 2000) 1000,
                        stored_movement ''uiiii'' ''u'' ''B'' (- 1000) 1000]\<rparr>"

text \<open>
  The store once a single line for product A has been sold from the shop: the quantity and
  the total price in the row, and the stock of A that is left.
\<close>

definition shop_sold_line :: "decimal \<Rightarrow> decimal \<Rightarrow> decimal \<Rightarrow> db" where
  "shop_sold_line quantity totalPrice left = shop\<lparr>
     products := [product_A\<lparr>p_stock := left\<rparr>, product_B],
     orders := [stored_order ''u'' 1000 ''paid'' (Some ''upi'')],
     orderItems := [stored_item ''ui'' ''u'' ''A'' quantity 5000 totalPrice],
     stockMovements := [stored_movement ''uii'' ''u'' ''A'' (- quantity) 1000]\<rparr>"

definition shop_sold_twice :: db where
  "shop_sold_twice = shop\<lparr>
     products := [product_A\<lparr>p_stock := 6000\<rparr>, product_B\<lparr>p_stock := - 1500\<rparr>],
     orders := [stored_order ''u'' 1000 ''paid'' (Some ''upi''),
                stored_order ''v'' 2000 ''paid'' (Some ''upi'')],
     orderItems := [stored_item ''ui'' ''u'' ''A'' 2000 5000 10000,
                    stored_item ''uiii'' ''u'' ''B'' 1000 2000 2000,
                    stored_item ''vi'' ''v'' ''A'' 2000 5000 10000,
                    stored_item ''viii'' ''v'' ''B'' 1000 2000 2000],
     stockMovements := [stored_movement ''uii'' ''u'' ''A'' (- 2000) 1000,
                        stored_movement ''uiiii'' ''u'' ''B'' (- 1000) 1000,
                        stored_movement ''vii'' ''v'' ''A'' (- 2000) 2000,
                        stored_movement ''viiii'' ''v'' ''B'' (- 1000) 2000]\<rparr>"

text \<open>
  The shop with a ledger: sales of 100.00 (by UPI), 250.50 and 40.00 in the 86400000 ms
  that begin at \<open>1754006400000\<close>, the first at their first and the last at their last
  millisecond; a sale one millisecond later; an expense; and a sale of another user.
\<close>

definition ledger_entry ::
  "ident \<Rightarrow> ident \<Rightarrow> string \<Rightarrow> decimal \<Rightarrow> string \<Rightarrow> timestamp \<Rightarrow> Transaction" where
  "ledger_entry newId userId type amount paymentMethod createdAt = \<lparr>
     t_id = newId,
     t_orderId = None,
     t_customerId = None,
     t_userId = userId,
     t_type = type,
     t_amount = amount,
     t_paymentMethod = paymentMethod,
     t_upiApp = None,
     t_upiTransactionId = None,
     t_description = None,
     t_isOfflineTransaction = Some False,
     t_syncedAt = None,
     t_createdAt = Some createdAt\<rparr>"

definition ledger :: db where
  "ledger = shop\<lparr>transactions := [
     ledger_entry ''t1'' ''user-1'' ''sale'' 10000 ''upi'' 1754006400000,
     ledger_entry ''t2'' ''user-1'' ''sale'' 25050 ''cash'' 1754073054057,
     ledger_entry ''t3'' ''user-1'' ''sale'' 4000 ''cash'' 1754092799999,
     ledger_entry ''t4'' ''user-1'' ''sale'' 99900 ''upi'' 1754092800000,
     ledger_entry ''t5'' ''user-1'' ''expense'' 5000 ''cash'' 1754073054057,
     ledger_entry ''t6'' ''user-2'' ''sale'' 7000 ''upi'' 1754073054057]\<rparr>"


section \<open>Decimal text\<close>

lemma and_then_Inr: "and_then r f = Inr y \<longleftrightarrow> (\<exists>v. r = Inr v \<and> f v = Inr y)"
  by (cases r) (simp_all add: and_then_def)

lemma unsigned_in_nonneg: "unsigned_in q = Inr (m, k) \<Longrightarrow> 0 \<le> m"
  by (auto simp: unsigned_in_def numeric_format_def scaled_def Let_def
      split: option.splits if_splits)

lemma is_digit_chars:
  "is_digit c \<Longrightarrow> \<not> is_space c \<and> c \<noteq> CHR ''-'' \<and> c \<noteq> CHR ''+''"
  by (auto simp: is_digit_def is_space_def)

lemma is_space_chars: "\<not> is_space CHR ''-''" "\<not> is_space CHR ''.''" "\<not> is_digit CHR ''.''"
  "\<not> is_digit CHR ''-''"
  by (simp_all add: is_space_def is_digit_def)

lemma unsigned_in_head:
  assumes "unsigned_in q = Inr x"
  obtains c r where "q = c # r" "is_digit c \<or> c = CHR ''.''"
proof (cases q)
  case Nil
  with assms show ?thesis by (simp add: unsigned_in_def)
next
  case (Cons c r)
  show ?thesis
  proof (cases "is_digit c")
    case True
    with Cons that show ?thesis by blast
  next
    case False
    with Cons assms have "c = CHR ''.''"
      by (auto simp: unsigned_in_def Let_def split: if_splits)
    with Cons that show ?thesis by blast
  qed
qed

lemma numeric_in_unsigned:
  assumes "unsigned_in q = Inr x"
  shows "numeric_in q = Inr x"
proof -
  from assms obtain c r where q: "q = c # r" and c: "is_digit c \<or> c = CHR ''.''"
    by (rule unsigned_in_head)
  from c have "\<not> is_space c" "c \<noteq> CHR ''-''" "c \<noteq> CHR ''+''"
    using is_digit_chars [of c] is_space_chars by auto
  with q assms show ?thesis by (simp add: numeric_in_def)
qed

lemma numeric_in_minus:
  "numeric_in (CHR ''-'' # q) = and_then (unsigned_in q) (\<lambda>(m, k). Inr (- m, k))"
  by (simp add: numeric_in_def is_space_chars)

lemma numeric_in_negated:
  assumes "numeric_in (negated (Some q)) = Inr y"
  shows "\<exists>m k. numeric_in q = Inr (m, k) \<and> y = (- m, k) \<and> 0 \<le> m"
proof -
  from assms obtain m k where u: "unsigned_in q = Inr (m, k)" and y: "y = (- m, k)"
    by (auto simp: negated_def numeric_in_minus and_then_Inr)
  from u have "0 \<le> m" by (rule unsigned_in_nonneg)
  with u y show ?thesis by (auto simp: numeric_in_unsigned)
qed

lemma numeric_in_negated_undefined: "numeric_in (negated None) = Inl invalid_text_representation"
  by (simp add: negated_def numeric_in_minus unsigned_in_def is_digit_def and_then_def)

subsection \<open>Rounding\<close>

lemma round_div_uminus: "round_div (- n) d = - round_div n d"
  by (cases "n = 0") (auto simp: round_div_def)

lemma rescale_uminus: "rescale s (- m, k) = - rescale s (m, k)"
  by (simp add: rescale_def round_div_uminus)

lemma round_div_mult:
  assumes "0 < d"
  shows "round_div (n * d) d = n"
proof (cases "0 \<le> n")
  case True
  have "(2 * (n * d) + d) div (2 * d) = (d + n * (2 * d)) div (2 * d)" by (simp add: algebra_simps)
  also have "\<dots> = d div (2 * d) + n" using assms by (subst div_mult_self1) simp_all
  also have "\<dots> = n" using assms by simp
  finally show ?thesis using True assms by (simp add: round_div_def zero_le_mult_iff)
next
  case False
  have "(2 * (- (n * d)) + d) div (2 * d) = (d + (- n) * (2 * d)) div (2 * d)"
    by (simp add: algebra_simps)
  also have "\<dots> = d div (2 * d) + (- n)" using assms by (subst div_mult_self1) simp_all
  also have "\<dots> = - n" using assms by simp
  finally show ?thesis using False assms
    by (simp add: round_div_def zero_le_mult_iff not_le)
qed

lemma rescale_same: "rescale s (v, s) = v"
  by (simp add: rescale_def)

text \<open>
  A quantity that is a whole number of thousandths is subtracted as the number a quantity
  column holds for it.
\<close>

lemma rescale_minus_exact:
  assumes "k \<le> 3 \<or> m mod 10 ^ (k - 3) = 0"
  shows "rescale 3 (minus_exact stock (m, k)) = stock - rescale 3 (m, k)"
proof (cases "k \<le> 3")
  case True
  then show ?thesis by (simp add: minus_exact_def rescale_def)
next
  case False
  let ?d = "(10::int) ^ (k - 3)"
  have d: "0 < ?d" by simp
  from False assms obtain q where m: "m = q * ?d" by (auto simp: mod_eq_0_iff_dvd dvd_def mult.commute)
  have "stock * ?d - m = (stock - q) * ?d" by (simp add: m algebra_simps)
  with False show ?thesis
    by (simp add: minus_exact_def rescale_def m round_div_mult [OF d])
qed

lemma numeric_Inr:
  "numeric p s r = Inr v \<longleftrightarrow> (\<exists>x. numeric_in r = Inr x \<and> rescale s x = v \<and> fits p v)"
  by (auto simp: numeric_def and_then_Inr coerce_def split: if_splits)

lemma coerce_Inr: "coerce p s x = Inr v \<longleftrightarrow> rescale s x = v \<and> fits p v"
  by (auto simp: coerce_def)

subsection \<open>Printing and reading back\<close>

lemma of_char_digit_char: "n < 10 \<Longrightarrow> (of_char (digit_char n) :: nat) = 48 + n"
  by (simp add: digit_char_def)

lemma is_digit_digit_char: "n < 10 \<Longrightarrow> is_digit (digit_char n)"
  by (simp add: is_digit_def of_char_digit_char)

lemma digit_val_digit_char: "n < 10 \<Longrightarrow> digit_val (digit_char n) = n"
  by (simp add: digit_val_def of_char_digit_char)

lemma digits_of_digits: "list_all is_digit (digits_of n)"
  by (induction n rule: digits_of.induct) (subst digits_of.simps, simp add: is_digit_digit_char)

lemma digits_of_nonempty: "digits_of n \<noteq> []"
  by (subst digits_of.simps) simp

lemma digits_val_append: "digits_val acc (xs @ ys) = digits_val (digits_val acc xs) ys"
  by (induction xs arbitrary: acc) simp_all

lemma digits_val_digits_of: "digits_val 0 (digits_of n) = n"
proof (induction n rule: digits_of.induct)
  case (1 n)
  show ?case
  proof (cases "n < 10")
    case True
    then show ?thesis by (subst digits_of.simps) (simp add: digit_val_digit_char)
  next
    case False
    with 1 have "digits_val 0 (digits_of (n div 10)) = n div 10" by simp
    with False show ?thesis
      by (subst digits_of.simps) (simp add: digits_val_append digit_val_digit_char)
  qed
qed

lemma length_digits_of: "n < 10 ^ k \<Longrightarrow> 0 < k \<Longrightarrow> length (digits_of n) \<le> k"
proof (induction n arbitrary: k rule: digits_of.induct)
  case (1 n)
  show ?case
  proof (cases "n < 10")
    case True
    with 1(3) show ?thesis by (subst digits_of.simps) simp
  next
    case False
    from 1(3) obtain j where k: "k = Suc j" by (cases k) auto
    from False 1(2) k have j: "0 < j" by (cases j) auto
    from 1(2) k have "n div 10 < 10 ^ j" by (simp add: div_less_iff_less_mult mult.commute)
    from 1(1) [OF False this j] False k show ?thesis by (subst digits_of.simps) simp
  qed
qed

lemma two_digits: "(a::nat) div 100 * 100 + (a mod 100 div 10 * 10 + a mod 10) = a"
proof -
  have "a mod 10 = a mod 100 mod 10" by (simp add: mod_mod_cancel)
  then have "a mod 100 div 10 * 10 + a mod 10 = a mod 100" by (simp only: div_mult_mod_eq)
  then show ?thesis by (simp only: div_mult_mod_eq)
qed

lemma unsigned_in_point:
  assumes "list_all is_digit ds" "ds \<noteq> []" "a < 10" "b < 10" "length ds \<le> 100"
  shows "unsigned_in (ds @ [CHR ''.'', digit_char a, digit_char b]) =
           Inr (int (digits_val 0 ds * 100 + (a * 10 + b)), 2)"
proof -
  let ?r = "ds @ [CHR ''.'', digit_char a, digit_char b]"
  let ?all = "ds @ [digit_char a, digit_char b]"
  have nd: "\<not> is_digit CHR ''.''" by (simp add: is_digit_def)
  from assms(1) have all: "\<And>x. x \<in> set ds \<Longrightarrow> is_digit x" by (simp add: list_all_iff)
  have tw: "takeWhile is_digit ?r = ds"
    using all nd by simp
  have dw: "dropWhile is_digit ?r = [CHR ''.'', digit_char a, digit_char b]"
    using all nd by simp
  have len: "length (dropWhile (\<lambda>c. c = CHR ''0'') ?all) \<le> 102"
    using length_dropWhile_le [of "\<lambda>c. c = CHR ''0''" ?all] assms(5) by simp
  have val: "digits_val 0 ?all = digits_val 0 ds * 100 + (a * 10 + b)"
    using assms(3,4) by (simp add: digits_val_append digit_val_digit_char)
  have fmt: "numeric_format ?all (length [digit_char a, digit_char b]) 0 =
      Inr (int (digits_val 0 ds * 100 + (a * 10 + b)), 2)"
    using len by (simp add: numeric_format_def Let_def scaled_def val)
  show ?thesis
    unfolding unsigned_in_def tw dw using assms(2,3,4) fmt
    by (simp add: is_digit_digit_char exponent_in_def)
qed

lemma unsigned_in_decimal2_out:
  assumes "a < 10 ^ 100"
  shows "unsigned_in (digits_of (a div 100) @ [CHR ''.'', digit_char (a mod 100 div 10), digit_char (a mod 10)])
     = Inr (int a, 2)"
proof -
  have lt: "a mod 100 div 10 < 10" "a mod 10 < 10"
    by (simp_all add: div_less_iff_less_mult)
  from assms have "a div 100 < 10 ^ 100" by (simp add: div_less_iff_less_mult)
  then have len: "length (digits_of (a div 100)) \<le> 100" by (rule length_digits_of) simp
  from unsigned_in_point [OF digits_of_digits digits_of_nonempty lt len]
  show ?thesis by (simp only: digits_val_digits_of two_digits)
qed

lemma numeric_in_decimal2_out:
  assumes "\<bar>v\<bar> < 10 ^ 100"
  shows "numeric_in (decimal2_out v) = Inr (v, 2)"
proof -
  from assms have a: "nat \<bar>v\<bar> < 10 ^ 100"
    by (metis nat_less_iff abs_ge_zero of_nat_numeral of_nat_power)
  show ?thesis
  proof (cases "v < 0")
    case True
    with a show ?thesis
      by (simp add: decimal2_out_def Let_def numeric_in_minus unsigned_in_decimal2_out and_then_def)
  next
    case False
    with a have "unsigned_in (decimal2_out v) = Inr (v, 2)"
      by (simp add: decimal2_out_def Let_def unsigned_in_decimal2_out)
    then show ?thesis by (rule numeric_in_unsigned)
  qed
qed

lemma numeric_decimal2_out:
  assumes "fits 10 v"
  shows "numeric 10 2 (decimal2_out v) = Inr v"
proof -
  have "(10::int) ^ 10 \<le> 10 ^ 100" by simp
  with assms have "\<bar>v\<bar> < 10 ^ 100" unfolding fits_def by linarith
  then have "numeric_in (decimal2_out v) = Inr (v, 2)" by (rule numeric_in_decimal2_out)
  with assms show ?thesis by (simp add: numeric_Inr rescale_same)
qed


section \<open>What each statement does\<close>

lemma optional_in_Inr:
  "optional_in x = Inr y \<longleftrightarrow>
     (x = Undefined \<and> y = Undefined) \<or> (x = Null \<and> y = Null) \<or>
     (\<exists>r v. x = Given r \<and> numeric_in r = Inr v \<and> y = Given v)"
  by (cases x) (auto simp: optional_in_def and_then_Inr)

lemma read_and_put:
  assumes "optional_in (null_if_absent x) = Inr y" and "coerce_optional p s d y = Inr (Some v)"
  shows "\<exists>r c. x = Some r \<and> numeric_in r = Inr c \<and> rescale s c = v \<and> fits p v"
  using assms
  by (cases x) (auto simp: null_if_absent_def optional_in_def coerce_optional_def and_then_Inr
      coerce_Inr)

lemma order_row_Inr:
  assumes "order_row newId now v d = Inr row"
  shows "o_id row = newId" and "o_orderNumber row = io_orderNumber v"
    and "o_userId row = io_userId v" and "o_customerId row = nullable (io_customerId v)"
    and "o_paymentStatus row = (case io_paymentStatus v of None \<Rightarrow> ''pending'' | Some x \<Rightarrow> x)"
    and "o_paymentMethod row = nullable (io_paymentMethod v)"
    and "numeric 10 2 (io_totalAmount v) = Inr (o_totalAmount row)"
    and "newId \<notin> set (map o_id (orders d))" and "io_userId v \<in> set (users d)"
    and "references_ok (nullable (io_customerId v)) (customers d)"
  using assms
  by (auto simp: order_row_def and_then_Inr numeric_def split: if_splits)

lemma tx_insert_orders_Inr:
  assumes "tx_insert_orders g now v t = (Inr row, t')"
  shows "order_row (g (tx_drawn t)) now v (tx_db t) = Inr row"
    and "tx_db t' = (tx_db t)\<lparr>orders := orders (tx_db t) @ [row]\<rparr>"
    and "tx_log t' = tx_log t @ [InsertOrders v]"
    and "tx_drawn t' = Suc (tx_drawn t)"
  using assms
  by (auto simp: tx_insert_orders_def issue_def Let_def split: sum.splits)

lemma tx_insert_orders_Inl:
  assumes "tx_insert_orders g now v t = (Inl e, t')"
  shows "tx_db t' = tx_db t" and "tx_log t' = tx_log t @ [InsertOrders v]"
  using assms
  by (auto simp: tx_insert_orders_def issue_def Let_def split: sum.splits)

lemma orderItem_row_Inr:
  assumes "orderItem_row newId v d = Inr r"
  shows "defaulted newId (ii_id v) = Some (oi_id r)"
    and "ii_orderId v = Some (oi_orderId r)"
    and "ii_productId v = Some (oi_productId r)"
    and "quantity_value v = Some (oi_quantity r)"
    and "price_value (ii_unitPrice v) = Some (oi_unitPrice r)"
    and "price_value (ii_totalPrice v) = Some (oi_totalPrice r)"
    and "oi_id r \<notin> set (map oi_id (orderItems d))"
    and "oi_orderId r \<in> set (map o_id (orders d))"
    and "oi_productId r \<in> set (map p_id (products d))"
proof -
  from assms obtain qr ur tr gr q u p gst where
    reads: "optional_in (null_if_absent (ii_quantity v)) = Inr qr"
      "optional_in (null_if_absent (ii_unitPrice v)) = Inr ur"
      "optional_in (null_if_absent (ii_totalPrice v)) = Inr tr"
      "optional_in (ii_gstRate v) = Inr gr"
    and puts: "coerce_optional 10 3 0 qr = Inr q" "coerce_optional 10 2 0 ur = Inr u"
      "coerce_optional 10 2 0 tr = Inr p" "coerce_optional 5 2 0 gr = Inr gst"
    and checks: "(case (defaulted newId (ii_id v), ii_orderId v, ii_productId v, q, u, p) of
         (Some i, Some oid, Some pid, Some q, Some up, Some tp) \<Rightarrow>
           if i \<in> set (map oi_id (orderItems d)) then Inl unique_violation
           else if oid \<notin> set (map o_id (orders d)) then Inl foreign_key_violation
           else if pid \<notin> set (map p_id (products d)) then Inl foreign_key_violation
           else Inr \<lparr>
             oi_id = i,
             oi_orderId = oid,
             oi_productId = pid,
             oi_quantity = q,
             oi_unitPrice = up,
             oi_totalPrice = tp,
             oi_gstRate = gst\<rparr>
       | _ \<Rightarrow> Inl not_null_violation) = Inr r"
    unfolding orderItem_row_def and_then_Inr by blast
  from checks obtain i oid pid qv uv pv where
    some: "defaulted newId (ii_id v) = Some i" "ii_orderId v = Some oid" "ii_productId v = Some pid"
      "q = Some qv" "u = Some uv" "p = Some pv"
    by (auto split: option.splits)
  from checks some have r: "r = \<lparr>oi_id = i, oi_orderId = oid, oi_productId = pid, oi_quantity = qv,
      oi_unitPrice = uv, oi_totalPrice = pv, oi_gstRate = gst\<rparr>"
    and keys: "i \<notin> set (map oi_id (orderItems d))" "oid \<in> set (map o_id (orders d))"
      "pid \<in> set (map p_id (products d))"
    by (auto split: if_splits)
  from read_and_put [OF reads(1) puts(1) [unfolded some]]
  have "quantity_value v = Some qv"
    by (auto simp: quantity_value_def quantity_read_def)
  moreover from read_and_put [OF reads(2) puts(2) [unfolded some]]
  have "price_value (ii_unitPrice v) = Some uv"
    by (auto simp: price_value_def)
  moreover from read_and_put [OF reads(3) puts(3) [unfolded some]]
  have "price_value (ii_totalPrice v) = Some pv"
    by (auto simp: price_value_def)
  ultimately show "defaulted newId (ii_id v) = Some (oi_id r)"
    and "ii_orderId v = Some (oi_orderId r)"
    and "ii_productId v = Some (oi_productId r)"
    and "quantity_value v = Some (oi_quantity r)"
    and "price_value (ii_unitPrice v) = Some (oi_unitPrice r)"
    and "price_value (ii_totalPrice v) = Some (oi_totalPrice r)"
    and "oi_id r \<notin> set (map oi_id (orderItems d))"
    and "oi_orderId r \<in> set (map o_id (orders d))"
    and "oi_productId r \<in> set (map p_id (products d))"
    using some keys by (simp_all add: r)
qed

lemma tx_insert_orderItems_Inr:
  assumes "tx_insert_orderItems g v t = (Inr u, t')"
  shows "\<exists>r. orderItem_row (g (tx_drawn t)) v (tx_db t) = Inr r \<and>
              tx_db t' = (tx_db t)\<lparr>orderItems := orderItems (tx_db t) @ [r]\<rparr>"
    and "tx_log t' = tx_log t @ [InsertOrderItems v]"
    and "tx_drawn t' = (if ii_id v = Undefined then Suc (tx_drawn t) else tx_drawn t)"
  using assms
  by (auto simp: tx_insert_orderItems_def issue_def Let_def split: sum.splits)

lemma tx_insert_orderItems_Inl:
  assumes "tx_insert_orderItems g v t = (Inl e, t')"
  shows "tx_db t' = tx_db t" and "tx_log t' = tx_log t @ [InsertOrderItems v]"
  using assms
  by (auto simp: tx_insert_orderItems_def issue_def Let_def split: sum.splits)

lemma tx_update_products_stock_Inr:
  assumes "tx_update_products_stock quantity pid t = (Inr u, t')"
  shows "\<exists>r x. quantity = Some r \<and> numeric_in r = Inr x \<and>
           list_all (\<lambda>p. fits 10 (p_stock (decrement pid x p)))
             (filter (\<lambda>p. Some (p_id p) = pid) (products (tx_db t))) \<and>
           tx_db t' = (tx_db t)\<lparr>products := map (decrement pid x) (products (tx_db t))\<rparr>"
    and "tx_log t' = tx_log t @ [UpdateProductsStock quantity pid]"
    and "tx_drawn t' = tx_drawn t"
  using assms
  by (auto simp: tx_update_products_stock_def issue_def Let_def
      split: option.splits sum.splits if_splits)

lemma tx_update_products_stock_Inl:
  assumes "tx_update_products_stock quantity pid t = (Inl e, t')"
  shows "tx_db t' = tx_db t" and "tx_log t' = tx_log t @ [UpdateProductsStock quantity pid]"
  using assms
  by (auto simp: tx_update_products_stock_def issue_def Let_def
      split: option.splits sum.splits if_splits)

lemma stockMovement_row_Inr:
  assumes "stockMovement_row newId now v d = Inr m"
  shows "sm_id m = newId" and "ism_productId v = Some (sm_productId m)"
    and "numeric 10 3 (ism_quantity v) = Inr (sm_quantity m)"
    and "sm_type m = ism_type v" and "sm_reason m = ism_reason v"
    and "sm_orderId m = ism_orderId v" and "sm_userId m = ism_userId v"
    and "newId \<notin> set (map sm_id (stockMovements d))"
    and "sm_productId m \<in> set (map p_id (products d))"
    and "ism_userId v \<in> set (users d)"
  using assms
  by (auto simp: stockMovement_row_def and_then_Inr split: option.splits if_splits)

lemma tx_insert_stockMovements_Inr:
  assumes "tx_insert_stockMovements g now v t = (Inr u, t')"
  shows "\<exists>m. stockMovement_row (g (tx_drawn t)) now v (tx_db t) = Inr m \<and>
              tx_db t' = (tx_db t)\<lparr>stockMovements := stockMovements (tx_db t) @ [m]\<rparr>"
    and "tx_log t' = tx_log t @ [InsertStockMovements v]"
    and "tx_drawn t' = Suc (tx_drawn t)"
  using assms
  by (auto simp: tx_insert_stockMovements_def issue_def Let_def split: sum.splits)

lemma tx_insert_stockMovements_Inl:
  assumes "tx_insert_stockMovements g now v t = (Inl e, t')"
  shows "tx_db t' = tx_db t" and "tx_log t' = tx_log t @ [InsertStockMovements v]"
  using assms
  by (auto simp: tx_insert_stockMovements_def issue_def Let_def split: sum.splits)

text \<open>A movement written for a sale records the item with the sign turned.\<close>

lemma sale_movement_row:
  assumes "stockMovement_row newId now (sale_movement order newOrder item) d = Inr m"
  shows "sale_movement_of newOrder item m"
proof -
  from stockMovement_row_Inr [OF assms]
  have pid: "ii_productId item = Some (sm_productId m)"
    and q: "numeric 10 3 (negated (ii_quantity item)) = Inr (sm_quantity m)"
    and rest: "sm_type m = ''out''" "sm_reason m = Some ''sale''"
      "sm_orderId m = Some (o_id newOrder)"
    by (simp_all add: sale_movement_def)
  from q obtain y where y: "numeric_in (negated (ii_quantity item)) = Inr y"
    and v: "rescale 3 y = sm_quantity m"
    by (auto simp: numeric_Inr)
  from y obtain qt where qt: "ii_quantity item = Some qt"
    by (cases "ii_quantity item") (simp_all add: numeric_in_negated_undefined)
  with y obtain n k where "numeric_in qt = Inr (n, k)" "y = (- n, k)"
    using numeric_in_negated [of qt y] by auto
  with v qt have "quantity_value item = Some (- sm_quantity m)"
    by (auto simp: quantity_value_def quantity_read_def rescale_uminus)
  with pid rest show ?thesis
    by (simp add: sale_movement_of_def)
qed


section \<open>The loop over the items\<close>

lemma createOrder_items_Cons_Inr:
  assumes "createOrder_items g now order newOrder (item # items) t = (Inr u, t')"
  obtains t1 t2 t3 where
    "tx_insert_orderItems g (item\<lparr>ii_orderId := Some (o_id newOrder)\<rparr>) t = (Inr (), t1)"
    "tx_update_products_stock (ii_quantity item) (ii_productId item) t1 = (Inr (), t2)"
    "tx_insert_stockMovements g now (sale_movement order newOrder item) t2 = (Inr (), t3)"
    "createOrder_items g now order newOrder items t3 = (Inr u, t')"
  using assms by (auto split: prod.splits sum.splits)

lemma take_item_update:
  assumes "ii_quantity item = Some r" "numeric_in r = Inr x"
  shows "take_item item ps = map (decrement (ii_productId item) x) ps"
  using assms by (simp add: take_item_def quantity_read_def)

lemma order_item_of_orderId_update:
  "order_item_of newOrder (item\<lparr>ii_orderId := c\<rparr>) r = order_item_of newOrder item r"
  by (simp add: order_item_of_def quantity_value_def quantity_read_def)

lemma createOrder_items_Inr:
  assumes "createOrder_items g now order newOrder items t = (Inr u, t')"
  shows "\<exists>rows moves.
           tx_db t' = (tx_db t)\<lparr>
             products := stock_taken items (products (tx_db t)),
             orderItems := orderItems (tx_db t) @ rows,
             stockMovements := stockMovements (tx_db t) @ moves\<rparr> \<and>
           list_all2 (order_item_of newOrder) items rows \<and>
           list_all2 (sale_movement_of newOrder) items moves"
  using assms
proof (induction items arbitrary: t)
  case Nil
  then show ?case by simp
next
  case (Cons item items)
  from Cons.prems obtain t1 t2 t3 where
    s1: "tx_insert_orderItems g (item\<lparr>ii_orderId := Some (o_id newOrder)\<rparr>) t = (Inr (), t1)" and
    s2: "tx_update_products_stock (ii_quantity item) (ii_productId item) t1 = (Inr (), t2)" and
    s3: "tx_insert_stockMovements g now (sale_movement order newOrder item) t2 = (Inr (), t3)" and
    s4: "createOrder_items g now order newOrder items t3 = (Inr u, t')"
    by (rule createOrder_items_Cons_Inr)
  from tx_insert_orderItems_Inr(1) [OF s1] obtain r where
    r: "orderItem_row (g (tx_drawn t)) (item\<lparr>ii_orderId := Some (o_id newOrder)\<rparr>) (tx_db t) = Inr r"
    and d1: "tx_db t1 = (tx_db t)\<lparr>orderItems := orderItems (tx_db t) @ [r]\<rparr>"
    by blast
  from orderItem_row_Inr [OF r]
  have "order_item_of newOrder (item\<lparr>ii_orderId := Some (o_id newOrder)\<rparr>) r"
    by (simp add: order_item_of_def)
  then have r_of: "order_item_of newOrder item r"
    by (simp only: order_item_of_orderId_update)
  from tx_update_products_stock_Inr(1) [OF s2] obtain qt x where
    q: "ii_quantity item = Some qt" "numeric_in qt = Inr x"
    and d2: "tx_db t2 = (tx_db t1)\<lparr>products := map (decrement (ii_productId item) x) (products (tx_db t1))\<rparr>"
    by blast
  from tx_insert_stockMovements_Inr(1) [OF s3] obtain m where
    m: "stockMovement_row (g (tx_drawn t2)) now (sale_movement order newOrder item) (tx_db t2) = Inr m"
    and d3: "tx_db t3 = (tx_db t2)\<lparr>stockMovements := stockMovements (tx_db t2) @ [m]\<rparr>"
    by blast
  from sale_movement_row [OF m] have m_of: "sale_movement_of newOrder item m" .
  from Cons.IH [OF s4] obtain rows moves where
    d': "tx_db t' = (tx_db t3)\<lparr>
           products := stock_taken items (products (tx_db t3)),
           orderItems := orderItems (tx_db t3) @ rows,
           stockMovements := stockMovements (tx_db t3) @ moves\<rparr>"
    and rows: "list_all2 (order_item_of newOrder) items rows"
    and moves: "list_all2 (sale_movement_of newOrder) items moves"
    by blast
  have "tx_db t' = (tx_db t)\<lparr>
          products := stock_taken (item # items) (products (tx_db t)),
          orderItems := orderItems (tx_db t) @ (r # rows),
          stockMovements := stockMovements (tx_db t) @ (m # moves)\<rparr>"
    by (simp add: d' d3 d2 d1 take_item_update [OF q])
  moreover from r_of rows have "list_all2 (order_item_of newOrder) (item # items) (r # rows)"
    by simp
  moreover from m_of moves have "list_all2 (sale_movement_of newOrder) (item # items) (m # moves)"
    by simp
  ultimately show ?case by blast
qed

text \<open>
  When the quantities are whole numbers of thousandths, taking the items lowers each
  stock by the quantities of the items that name the product.
\<close>

lemma sold_Nil: "sold pid [] = 0"
  by (simp add: sold_def)

lemma sold_Cons:
  "sold pid (item # items) =
     (if ii_productId item = Some pid then (case quantity_value item of None \<Rightarrow> 0 | Some q \<Rightarrow> q) else 0)
     + sold pid items"
  by (simp add: sold_def)

lemma take_item_whole:
  assumes "whole_thousandths item"
  shows "\<exists>q. quantity_value item = Some q \<and>
           take_item item ps =
             map (\<lambda>p. if Some (p_id p) = ii_productId item then p\<lparr>p_stock := p_stock p - q\<rparr> else p) ps"
proof -
  from assms obtain m k where x: "quantity_read item = Some (m, k)"
    and w: "k \<le> 3 \<or> m mod 10 ^ (k - 3) = 0"
    by (auto simp: whole_thousandths_def split: option.splits)
  from x have "quantity_value item = Some (rescale 3 (m, k))"
    by (simp add: quantity_value_def)
  moreover from x have "take_item item ps =
      map (\<lambda>p. if Some (p_id p) = ii_productId item
                then p\<lparr>p_stock := p_stock p - rescale 3 (m, k)\<rparr> else p) ps"
    by (simp add: take_item_def decrement_def rescale_minus_exact [OF w])
  ultimately show ?thesis by blast
qed

lemma stock_taken_whole:
  assumes "list_all whole_thousandths items"
  shows "stock_taken items ps = map (\<lambda>p. p\<lparr>p_stock := p_stock p - sold (p_id p) items\<rparr>) ps"
  using assms
proof (induction items arbitrary: ps)
  case Nil
  then show ?case by (simp add: sold_Nil)
next
  case (Cons item items)
  from Cons.prems have "whole_thousandths item" and rest: "list_all whole_thousandths items"
    by simp_all
  from take_item_whole [OF this(1), of ps] obtain q where
    q: "quantity_value item = Some q" and
    t: "take_item item ps =
          map (\<lambda>p. if Some (p_id p) = ii_productId item then p\<lparr>p_stock := p_stock p - q\<rparr> else p) ps"
    by blast
  have "stock_taken (item # items) ps = stock_taken items (take_item item ps)" by simp
  also have "\<dots> = map (\<lambda>p. p\<lparr>p_stock := p_stock p - sold (p_id p) items\<rparr>) (take_item item ps)"
    by (rule Cons.IH [OF rest])
  also have "\<dots> = map (\<lambda>p. p\<lparr>p_stock := p_stock p - sold (p_id p) (item # items)\<rparr>) ps"
    unfolding t using q by (auto simp: sold_Cons)
  finally show ?case .
qed

lemma createOrder_items_log_Inr:
  assumes "createOrder_items g now order newOrder items t = (Inr u, t')"
  shows "tx_log t' = tx_log t @ concat (map (item_statements order newOrder) items)"
  using assms
proof (induction items arbitrary: t)
  case Nil
  then show ?case by simp
next
  case (Cons item items)
  from Cons.prems obtain t1 t2 t3 where
    s1: "tx_insert_orderItems g (item\<lparr>ii_orderId := Some (o_id newOrder)\<rparr>) t = (Inr (), t1)" and
    s2: "tx_update_products_stock (ii_quantity item) (ii_productId item) t1 = (Inr (), t2)" and
    s3: "tx_insert_stockMovements g now (sale_movement order newOrder item) t2 = (Inr (), t3)" and
    s4: "createOrder_items g now order newOrder items t3 = (Inr u, t')"
    by (rule createOrder_items_Cons_Inr)
  have "tx_log t3 = tx_log t @ item_statements order newOrder item"
    by (simp add: tx_insert_orderItems_Inr(2) [OF s1] tx_update_products_stock_Inr(2) [OF s2]
          tx_insert_stockMovements_Inr(2) [OF s3] item_statements_def)
  with Cons.IH [OF s4] show ?case by simp
qed

text \<open>Whatever the outcome, the statements sent are an initial part of that sequence.\<close>

lemma createOrder_items_log:
  assumes "createOrder_items g now order newOrder items t = (r, t')"
  shows "\<exists>n. tx_log t' = tx_log t @ take n (concat (map (item_statements order newOrder) items))"
  using assms
proof (induction items arbitrary: t)
  case Nil
  then show ?case by simp
next
  case (Cons item items)
  let ?rest = "concat (map (item_statements order newOrder) items)"
  obtain r1 t1 where s1:
    "tx_insert_orderItems g (item\<lparr>ii_orderId := Some (o_id newOrder)\<rparr>) t = (r1, t1)"
    by (cases "tx_insert_orderItems g (item\<lparr>ii_orderId := Some (o_id newOrder)\<rparr>) t")
  show ?case
  proof (cases r1)
    case (Inl e)
    with s1 Cons.prems have "t' = t1" by simp
    with s1 Inl have "tx_log t' = tx_log t @ take 1 (item_statements order newOrder item @ ?rest)"
      by (simp add: tx_insert_orderItems_Inl(2) item_statements_def)
    then show ?thesis by (metis concat.simps(2) list.simps(9))
  next
    case Inr1: (Inr u1)
    obtain r2 t2 where s2:
      "tx_update_products_stock (ii_quantity item) (ii_productId item) t1 = (r2, t2)"
      by (cases "tx_update_products_stock (ii_quantity item) (ii_productId item) t1")
    show ?thesis
    proof (cases r2)
      case (Inl e)
      with s1 Inr1 s2 Cons.prems have "t' = t2" by simp
      with s1 Inr1 s2 Inl
      have "tx_log t' = tx_log t @ take 2 (item_statements order newOrder item @ ?rest)"
        by (simp add: tx_insert_orderItems_Inr(2) tx_update_products_stock_Inl(2)
              item_statements_def)
      then show ?thesis by (metis concat.simps(2) list.simps(9))
    next
      case Inr2: (Inr u2)
      obtain r3 t3 where s3:
        "tx_insert_stockMovements g now (sale_movement order newOrder item) t2 = (r3, t3)"
        by (cases "tx_insert_stockMovements g now (sale_movement order newOrder item) t2")
      show ?thesis
      proof (cases r3)
        case (Inl e)
        with s1 Inr1 s2 Inr2 s3 Cons.prems have "t' = t3" by simp
        with s1 Inr1 s2 Inr2 s3 Inl
        have "tx_log t' = tx_log t @ take 3 (item_statements order newOrder item @ ?rest)"
          by (simp add: tx_insert_orderItems_Inr(2) tx_update_products_stock_Inr(2)
                tx_insert_stockMovements_Inl(2) item_statements_def)
        then show ?thesis by (metis concat.simps(2) list.simps(9))
      next
        case Inr3: (Inr u3)
        with s1 Inr1 s2 Inr2 s3 Cons.prems
        have s4: "createOrder_items g now order newOrder items t3 = (r, t')" by simp
        from s1 Inr1 s2 Inr2 s3 Inr3
        have l3: "tx_log t3 = tx_log t @ item_statements order newOrder item"
          by (simp add: tx_insert_orderItems_Inr(2) tx_update_products_stock_Inr(2)
                tx_insert_stockMovements_Inr(2) item_statements_def)
        from Cons.IH [OF s4] obtain n where "tx_log t' = tx_log t3 @ take n ?rest" by blast
        with l3 have "tx_log t' = tx_log t @ take (Suc (Suc (Suc n))) (item_statements order newOrder item @ ?rest)"
          by (simp add: item_statements_def)
        then show ?thesis by (metis concat.simps(2) list.simps(9))
      qed
    qed
  qed
qed

text \<open>
  The loop over a list in two parts runs the second part where the first part ended, and
  not at all when the first part failed.
\<close>

lemma createOrder_items_append:
  "createOrder_items g now order newOrder (xs @ ys) t =
     (case createOrder_items g now order newOrder xs t of
        (Inl e, t1) \<Rightarrow> (Inl e, t1)
      | (Inr u, t1) \<Rightarrow> createOrder_items g now order newOrder ys t1)"
  by (induction xs arbitrary: t) (auto split: prod.splits sum.splits)

text \<open>
  A loop that fails has come through the items before some item and has had one of the
  three writes for that item refused.
\<close>

lemma createOrder_items_Inl:
  assumes "createOrder_items g now order newOrder items t = (Inl e, t')"
  shows "\<exists>before item rest s.
           items = before @ item # rest \<and>
           createOrder_items g now order newOrder before t = (Inr (), s) \<and>
           ((\<exists>s1. tx_insert_orderItems g (item\<lparr>ii_orderId := Some (o_id newOrder)\<rparr>) s = (Inl e, s1)) \<or>
            (\<exists>s1 s2. tx_insert_orderItems g (item\<lparr>ii_orderId := Some (o_id newOrder)\<rparr>) s = (Inr (), s1) \<and>
                    tx_update_products_stock (ii_quantity item) (ii_productId item) s1 = (Inl e, s2)) \<or>
            (\<exists>s1 s2 s3. tx_insert_orderItems g (item\<lparr>ii_orderId := Some (o_id newOrder)\<rparr>) s = (Inr (), s1) \<and>
                    tx_update_products_stock (ii_quantity item) (ii_productId item) s1 = (Inr (), s2) \<and>
                    tx_insert_stockMovements g now (sale_movement order newOrder item) s2 = (Inl e, s3)))"
  using assms
proof (induction items arbitrary: t)
  case Nil
  then show ?case by simp
next
  case (Cons item items)
  let ?fails = "\<lambda>item s.
     (\<exists>s1. tx_insert_orderItems g (item\<lparr>ii_orderId := Some (o_id newOrder)\<rparr>) s = (Inl e, s1)) \<or>
     (\<exists>s1 s2. tx_insert_orderItems g (item\<lparr>ii_orderId := Some (o_id newOrder)\<rparr>) s = (Inr (), s1) \<and>
             tx_update_products_stock (ii_quantity item) (ii_productId item) s1 = (Inl e, s2)) \<or>
     (\<exists>s1 s2 s3. tx_insert_orderItems g (item\<lparr>ii_orderId := Some (o_id newOrder)\<rparr>) s = (Inr (), s1) \<and>
             tx_update_products_stock (ii_quantity item) (ii_productId item) s1 = (Inr (), s2) \<and>
             tx_insert_stockMovements g now (sale_movement order newOrder item) s2 = (Inl e, s3))"
  show ?case
  proof (cases "?fails item t")
    case True
    have "item # items = [] @ item # items"
      "createOrder_items g now order newOrder [] t = (Inr (), t)"
      by simp_all
    with True show ?thesis by blast
  next
    case False
    with Cons.prems obtain t1 t2 t3 where
      s1: "tx_insert_orderItems g (item\<lparr>ii_orderId := Some (o_id newOrder)\<rparr>) t = (Inr (), t1)" and
      s2: "tx_update_products_stock (ii_quantity item) (ii_productId item) t1 = (Inr (), t2)" and
      s3: "tx_insert_stockMovements g now (sale_movement order newOrder item) t2 = (Inr (), t3)" and
      s4: "createOrder_items g now order newOrder items t3 = (Inl e, t')"
      by (auto split: prod.splits sum.splits)
    from Cons.IH [OF s4] obtain before item' rest s where
      items: "items = before @ item' # rest" and
      run: "createOrder_items g now order newOrder before t3 = (Inr (), s)" and
      fails: "?fails item' s"
      by blast
    from s1 s2 s3 run
    have "createOrder_items g now order newOrder (item # before) t = (Inr (), s)" by simp
    moreover from items have "item # items = (item # before) @ item' # rest" by simp
    ultimately show ?thesis using fails by blast
  qed
qed


section \<open>\<^verbatim>\<open>createOrder\<close> as a whole\<close>

lemma createOrder_body_Inr:
  assumes "createOrder_body g now order items t = (Inr newOrder, t')"
  obtains t1 where
    "tx_insert_orders g now order t = (Inr newOrder, t1)"
    "createOrder_items g now order newOrder items t1 = (Inr (), t')"
  using assms by (auto simp: createOrder_body_def split: prod.splits sum.splits)

lemma createOrder_Inr_body:
  assumes "createOrder g now order items d = (Inr newOrder, d')"
  obtains t' where
    "createOrder_body g now order items \<lparr>tx_db = d, tx_log = [], tx_drawn = 0\<rparr> = (Inr newOrder, t')"
    "tx_db t' = d'"
  using assms by (auto simp: createOrder_def transaction_def split: prod.splits sum.splits)

lemma createOrder_Inl_body:
  assumes "createOrder g now order items d = (Inl e, d')"
  obtains t' where
    "createOrder_body g now order items \<lparr>tx_db = d, tx_log = [], tx_drawn = 0\<rparr> = (Inl e, t')"
    "d' = d"
  using assms by (auto simp: createOrder_def transaction_def split: prod.splits sum.splits)

lemma createOrder_Inr:
  assumes "createOrder g now order items d = (Inr newOrder, d')"
  shows "order_row (g 0) now order d = Inr newOrder"
    and "\<exists>rows moves.
           d' = d\<lparr>
             products := stock_taken items (products d),
             orders := orders d @ [newOrder],
             orderItems := orderItems d @ rows,
             stockMovements := stockMovements d @ moves\<rparr> \<and>
           list_all2 (order_item_of newOrder) items rows \<and>
           list_all2 (sale_movement_of newOrder) items moves"
    and "createOrder_statements g now order items d =
           InsertOrders order # concat (map (item_statements order newOrder) items)"
proof -
  let ?t = "\<lparr>tx_db = d, tx_log = [], tx_drawn = 0\<rparr>"
  from assms obtain t' where
    body: "createOrder_body g now order items ?t = (Inr newOrder, t')" and d': "tx_db t' = d'"
    by (rule createOrder_Inr_body)
  from body obtain t1 where
    ins: "tx_insert_orders g now order ?t = (Inr newOrder, t1)" and
    loop: "createOrder_items g now order newOrder items t1 = (Inr (), t')"
    by (rule createOrder_body_Inr)
  from tx_insert_orders_Inr [OF ins]
  have row: "order_row (g 0) now order d = Inr newOrder"
    and d1: "tx_db t1 = d\<lparr>orders := orders d @ [newOrder]\<rparr>"
    and l1: "tx_log t1 = [InsertOrders order]"
    by simp_all
  from row show "order_row (g 0) now order d = Inr newOrder" .
  from createOrder_items_Inr [OF loop] obtain rows moves where
    e: "tx_db t' = (tx_db t1)\<lparr>
          products := stock_taken items (products (tx_db t1)),
          orderItems := orderItems (tx_db t1) @ rows,
          stockMovements := stockMovements (tx_db t1) @ moves\<rparr>"
    and rows: "list_all2 (order_item_of newOrder) items rows"
    and moves: "list_all2 (sale_movement_of newOrder) items moves"
    by blast
  from e d1 d' have "d' = d\<lparr>
      products := stock_taken items (products d),
      orders := orders d @ [newOrder],
      orderItems := orderItems d @ rows,
      stockMovements := stockMovements d @ moves\<rparr>"
    by simp
  with rows moves
  show "\<exists>rows moves.
           d' = d\<lparr>
             products := stock_taken items (products d),
             orders := orders d @ [newOrder],
             orderItems := orderItems d @ rows,
             stockMovements := stockMovements d @ moves\<rparr> \<and>
           list_all2 (order_item_of newOrder) items rows \<and>
           list_all2 (sale_movement_of newOrder) items moves"
    by blast
  from createOrder_items_log_Inr [OF loop] l1 body
  show "createOrder_statements g now order items d =
           InsertOrders order # concat (map (item_statements order newOrder) items)"
    by (simp add: createOrder_statements_def)
qed

section \<open>The examples, evaluated\<close>

lemmas decimal_in_eval = numeric_in_def unsigned_in_def exponent_in_def numeric_format_def
  scaled_def is_digit_def is_space_def digit_val_def rescale_def round_div_def coerce_def
  numeric_def

lemmas row_eval = order_row_def orderItem_row_def stockMovement_row_def transaction_row_def
  and_then_def optional_in_def coerce_optional_def null_if_absent_def fits_def references_ok_def
  nullable_def defaulted_def

lemmas tx_eval = createOrder_def createOrder_body_def transaction_def tx_insert_orders_def
  tx_insert_orderItems_def tx_update_products_stock_def tx_insert_stockMovements_def issue_def
  decrement_def minus_exact_def negated_def sale_movement_def

lemmas shop_eval = shop_def product_A_def product_B_def line_def two_lines_def three_lines_def
  paid_order_def header_def with_userId_def InsertOrder.extend_def InsertOrder_userId.fields_def
  uuids_def later_uuids_def stored_order_def stored_item_def stored_movement_def
  shop_sold_once_def shop_sold_twice_def

lemma sell_two_lines:
  "createOrder uuids 1000 paid_order two_lines shop =
     (Inr (stored_order ''u'' 1000 ''paid'' (Some ''upi'')), shop_sold_once ''paid'' (Some ''upi''))"
  by (simp add: tx_eval row_eval decimal_in_eval shop_eval Let_def)

lemma sell_two_lines_again:
  "createOrder later_uuids 2000 paid_order two_lines (shop_sold_once ''paid'' (Some ''upi'')) =
     (Inr (stored_order ''v'' 2000 ''paid'' (Some ''upi'')), shop_sold_twice)"
  by (simp add: tx_eval row_eval decimal_in_eval shop_eval Let_def)

lemma sell_three_lines:
  "createOrder uuids 1000 paid_order three_lines shop = (Inl foreign_key_violation, shop)"
  by (simp add: tx_eval row_eval decimal_in_eval shop_eval Let_def)


lemma sell_fraction:
  "createOrder uuids 1000 paid_order [line ''A'' ''1.2345'' ''50.00'' ''61.73''] shop =
     (Inr (stored_order ''u'' 1000 ''paid'' (Some ''upi'')), shop_sold_line 1235 6173 8766)"
  by (simp add: tx_eval row_eval decimal_in_eval shop_eval shop_sold_line_def Let_def)

lemma sell_sliver:
  "createOrder uuids 1000 paid_order [line ''A'' ''0.0005'' ''50.00'' ''0.03''] shop =
     (Inr (stored_order ''u'' 1000 ''paid'' (Some ''upi'')), shop_sold_line 1 3 10000)"
  by (simp add: tx_eval row_eval decimal_in_eval shop_eval shop_sold_line_def Let_def)

lemmas vocab_eval = quantity_read_def quantity_value_def take_item_def whole_thousandths_def
  sold_def

section \<open>Properties of \<^verbatim>\<open>createOrder\<close>\<close>

text \<open>
  C1, as the claim states it, fails for a quantity written with more than three decimals.
  One line asks for 1.2345 of product A, of which there are 10.000.  The call succeeds;
  the item row holds 1.235 and the movement row -1.235, and the stock is 8.766: it has
  been lowered by 1.234, which is neither the quantity written nor the quantity in the
  rows.
\<close>

theorem createOrder_rounds_counterexample:
  "createOrder uuids 1000 paid_order [line ''A'' ''1.2345'' ''50.00'' ''61.73''] shop =
     (Inr (stored_order ''u'' 1000 ''paid'' (Some ''upi'')), shop_sold_line 1235 6173 8766) \<and>
   quantity_read (line ''A'' ''1.2345'' ''50.00'' ''61.73'') = Some (12345, 4) \<and>
   map oi_quantity (orderItems (shop_sold_line 1235 6173 8766)) = [1235] \<and>
   map sm_quantity (stockMovements (shop_sold_line 1235 6173 8766)) = [- 1235] \<and>
   map p_stock (products shop) = [10000, 500] \<and>
   map p_stock (products (shop_sold_line 1235 6173 8766)) = [8766, 500] \<and>
   products (shop_sold_line 1235 6173 8766) \<noteq>
     map (\<lambda>p. p\<lparr>p_stock := p_stock p - sold (p_id p) [line ''A'' ''1.2345'' ''50.00'' ''61.73'']\<rparr>)
       (products shop)"
proof -
  have "quantity_read (line ''A'' ''1.2345'' ''50.00'' ''61.73'') = Some (12345, 4)"
    by (simp add: vocab_eval decimal_in_eval line_def Let_def)
  moreover have "map oi_quantity (orderItems (shop_sold_line 1235 6173 8766)) = [1235]"
    "map sm_quantity (stockMovements (shop_sold_line 1235 6173 8766)) = [- 1235]"
    "map p_stock (products shop) = [10000, 500]"
    "map p_stock (products (shop_sold_line 1235 6173 8766)) = [8766, 500]"
    by (simp_all add: shop_sold_line_def shop_eval)
  moreover have "products (shop_sold_line 1235 6173 8766) \<noteq>
     map (\<lambda>p. p\<lparr>p_stock := p_stock p - sold (p_id p) [line ''A'' ''1.2345'' ''50.00'' ''61.73'']\<rparr>)
       (products shop)"
    by (simp add: shop_sold_line_def shop_eval vocab_eval decimal_in_eval Let_def)
  ultimately show ?thesis using sell_fraction by simp
qed

text \<open>
  C1, amended.  A call of \<^verbatim>\<open>createOrder\<close> that succeeds appends exactly one row to
  \<^verbatim>\<open>orders\<close>, the order it returns, whose id is the one generated for it; it appends one
  \<^verbatim>\<open>order_items\<close> row and one \<^verbatim>\<open>stock_movements\<close> row per line item, in the order of the
  items; an item row holds the item's quantity rounded to three decimals, and the
  movement is of type "out" with reason "sale", refers to the new order and holds that
  quantity negated; and the stock of every product has been lowered, item after item, by
  the quantity as written and rounded to three decimals each time.  When the quantities
  are whole numbers of thousandths, every product ends with its stock lowered by exactly
  the quantities of the items that name it.
\<close>

theorem createOrder_writes:
  assumes "createOrder g now order items d = (Inr newOrder, d')"
  shows "orders d' = orders d @ [newOrder] \<and> o_id newOrder = g 0 \<and>
         (\<exists>rows. orderItems d' = orderItems d @ rows \<and>
                 list_all2 (order_item_of newOrder) items rows) \<and>
         (\<exists>moves. stockMovements d' = stockMovements d @ moves \<and>
                 list_all2 (sale_movement_of newOrder) items moves) \<and>
         products d' = stock_taken items (products d) \<and>
         (list_all whole_thousandths items \<longrightarrow>
            products d' = map (\<lambda>p. p\<lparr>p_stock := p_stock p - sold (p_id p) items\<rparr>) (products d)) \<and>
         length (orders d') = length (orders d) + 1 \<and>
         length (orderItems d') = length (orderItems d) + length items \<and>
         length (stockMovements d') = length (stockMovements d) + length items"
proof -
  from createOrder_Inr(2) [OF assms] obtain rows moves where
    d': "d' = d\<lparr>
           products := stock_taken items (products d),
           orders := orders d @ [newOrder],
           orderItems := orderItems d @ rows,
           stockMovements := stockMovements d @ moves\<rparr>"
    and rows: "list_all2 (order_item_of newOrder) items rows"
    and moves: "list_all2 (sale_movement_of newOrder) items moves"
    by blast
  have len: "length rows = length items" "length moves = length items"
    using list_all2_lengthD [OF rows] list_all2_lengthD [OF moves] by simp_all
  from order_row_Inr(1) [OF createOrder_Inr(1) [OF assms]] have "o_id newOrder = g 0" .
  with d' rows moves len show ?thesis by (auto simp: stock_taken_whole)
qed

text \<open>
  The two lines, whose quantities are whole, and the line that asks for 1.2345, where the
  stock goes from 10.000 to 8.766.
\<close>

theorem createOrder_writes_witness:
  "createOrder uuids 1000 paid_order two_lines shop =
     (Inr (stored_order ''u'' 1000 ''paid'' (Some ''upi'')), shop_sold_once ''paid'' (Some ''upi'')) \<and>
   list_all whole_thousandths two_lines \<and>
   length (orders (shop_sold_once ''paid'' (Some ''upi''))) = length (orders shop) + 1 \<and>
   length (orderItems (shop_sold_once ''paid'' (Some ''upi''))) = length (orderItems shop) + length two_lines \<and>
   length (stockMovements (shop_sold_once ''paid'' (Some ''upi''))) =
     length (stockMovements shop) + length two_lines \<and>
   products (shop_sold_once ''paid'' (Some ''upi'')) =
     map (\<lambda>p. p\<lparr>p_stock := p_stock p - sold (p_id p) two_lines\<rparr>) (products shop) \<and>
   products (shop_sold_line 1235 6173 8766) =
     stock_taken [line ''A'' ''1.2345'' ''50.00'' ''61.73''] (products shop)"
proof -
  have whole: "list_all whole_thousandths two_lines"
    by (simp add: vocab_eval decimal_in_eval two_lines_def line_def Let_def)
  from createOrder_writes [OF sell_two_lines] createOrder_writes [OF sell_fraction] whole
    sell_two_lines
  show ?thesis by blast
qed

text \<open>
  C2.  A call of \<^verbatim>\<open>createOrder\<close> ends in the error \<open>e\<close> exactly when one of its writes
  is refused with \<open>e\<close>, the writes before it having been accepted: the insert of the
  order; or, the order inserted and the loop having come through the items before some
  item, the insert of that item, or the update of the stock for it, or the insert of
  the movement for it.  In each of these cases the store is afterwards the one the call
  started from: no order, item, movement or stock change remains.
\<close>

theorem createOrder_rollback:
  "createOrder g now order items d = (Inl e, d') \<longleftrightarrow>
     d' = d \<and>
     ((\<exists>t. tx_insert_orders g now order \<lparr>tx_db = d, tx_log = [], tx_drawn = 0\<rparr> = (Inl e, t)) \<or>
      (\<exists>newOrder t0 before item rest t.
         tx_insert_orders g now order \<lparr>tx_db = d, tx_log = [], tx_drawn = 0\<rparr> = (Inr newOrder, t0) \<and>
         items = before @ item # rest \<and>
         createOrder_items g now order newOrder before t0 = (Inr (), t) \<and>
         ((\<exists>t1. tx_insert_orderItems g (item\<lparr>ii_orderId := Some (o_id newOrder)\<rparr>) t = (Inl e, t1)) \<or>
          (\<exists>t1 t2. tx_insert_orderItems g (item\<lparr>ii_orderId := Some (o_id newOrder)\<rparr>) t = (Inr (), t1) \<and>
                  tx_update_products_stock (ii_quantity item) (ii_productId item) t1 = (Inl e, t2)) \<or>
          (\<exists>t1 t2 t3. tx_insert_orderItems g (item\<lparr>ii_orderId := Some (o_id newOrder)\<rparr>) t = (Inr (), t1) \<and>
                  tx_update_products_stock (ii_quantity item) (ii_productId item) t1 = (Inr (), t2) \<and>
                  tx_insert_stockMovements g now (sale_movement order newOrder item) t2 = (Inl e, t3)))))"
  (is "?fails \<longleftrightarrow> d' = d \<and> (?order \<or> ?item)")
proof
  let ?start = "\<lparr>tx_db = d, tx_log = [], tx_drawn = 0\<rparr>"
  assume ?fails
  then obtain t' where body: "createOrder_body g now order items ?start = (Inl e, t')"
    and d': "d' = d"
    by (rule createOrder_Inl_body)
  obtain r0 t0 where ins: "tx_insert_orders g now order ?start = (r0, t0)"
    by (cases "tx_insert_orders g now order ?start")
  show "d' = d \<and> (?order \<or> ?item)"
  proof (cases r0)
    case (Inl e0)
    with ins body have "e0 = e" by (simp add: createOrder_body_def)
    with ins Inl d' show ?thesis by blast
  next
    case (Inr newOrder)
    with ins body have "createOrder_items g now order newOrder items t0 = (Inl e, t')"
      by (auto simp: createOrder_body_def split: prod.splits sum.splits)
    from createOrder_items_Inl [OF this] ins Inr d' show ?thesis by blast
  qed
next
  let ?start = "\<lparr>tx_db = d, tx_log = [], tx_drawn = 0\<rparr>"
  assume r: "d' = d \<and> (?order \<or> ?item)"
  then have d': "d' = d" by simp
  from r have "?order \<or> ?item" by simp
  then have "\<exists>t'. createOrder_body g now order items ?start = (Inl e, t')"
  proof
    assume ?order
    then show ?thesis by (auto simp: createOrder_body_def)
  next
    assume ?item
    then obtain newOrder t0 before item rest t where
      ins: "tx_insert_orders g now order ?start = (Inr newOrder, t0)" and
      items: "items = before @ item # rest" and
      run: "createOrder_items g now order newOrder before t0 = (Inr (), t)" and
      fails: "(\<exists>t1. tx_insert_orderItems g (item\<lparr>ii_orderId := Some (o_id newOrder)\<rparr>) t = (Inl e, t1)) \<or>
          (\<exists>t1 t2. tx_insert_orderItems g (item\<lparr>ii_orderId := Some (o_id newOrder)\<rparr>) t = (Inr (), t1) \<and>
                  tx_update_products_stock (ii_quantity item) (ii_productId item) t1 = (Inl e, t2)) \<or>
          (\<exists>t1 t2 t3. tx_insert_orderItems g (item\<lparr>ii_orderId := Some (o_id newOrder)\<rparr>) t = (Inr (), t1) \<and>
                  tx_update_products_stock (ii_quantity item) (ii_productId item) t1 = (Inr (), t2) \<and>
                  tx_insert_stockMovements g now (sale_movement order newOrder item) t2 = (Inl e, t3))"
      by blast
    from fails have "\<exists>t'. createOrder_items g now order newOrder (item # rest) t = (Inl e, t')"
      by auto
    with run items have "\<exists>t'. createOrder_items g now order newOrder items t0 = (Inl e, t')"
      by (simp add: createOrder_items_append)
    with ins show ?thesis by (auto simp: createOrder_body_def)
  qed
  with d' show ?fails by (auto simp: createOrder_def transaction_def)
qed


text \<open>
  The third of three lines names a product that does not exist: the call ends in the
  error of the store and the store is as it was.
  One line gives the quantity -2 of product A.  The order and the item are inserted and
  the stock is raised to 12.000; the movement is to hold \<^verbatim>\<open>--2\<close>, which is no number, so
  its insert is refused, the call ends in that error and the store is as it was.
\<close>

theorem createOrder_rollback_witness:
  "createOrder uuids 1000 paid_order three_lines shop = (Inl foreign_key_violation, shop) \<and>
   createOrder uuids 1000 paid_order [line ''A'' ''-2'' ''50.00'' ''-100.00''] shop =
     (Inl invalid_text_representation, shop) \<and>
   (\<exists>t1 t2 t3.
      createOrder_items uuids 1000 paid_order (stored_order ''u'' 1000 ''paid'' (Some ''upi'')) []
        (snd (tx_insert_orders uuids 1000 paid_order \<lparr>tx_db = shop, tx_log = [], tx_drawn = 0\<rparr>)) =
        (Inr (), t1) \<and>
      tx_update_products_stock (Some ''-2'') (Some ''A'')
        (snd (tx_insert_orderItems uuids (line ''A'' ''-2'' ''50.00'' ''-100.00''\<lparr>ii_orderId := Some ''u''\<rparr>) t1)) =
        (Inr (), t2) \<and>
      map p_stock (products (tx_db t2)) = [12000, 500] \<and>
      length (orders (tx_db t2)) = 1 \<and> length (orderItems (tx_db t2)) = 1 \<and>
      tx_insert_stockMovements uuids 1000
        (sale_movement paid_order (stored_order ''u'' 1000 ''paid'' (Some ''upi''))
           (line ''A'' ''-2'' ''50.00'' ''-100.00'')) t2 =
        (Inl invalid_text_representation, t3))"
proof -
  let ?item = "line ''A'' ''-2'' ''50.00'' ''-100.00''"
  let ?o = "stored_order ''u'' 1000 ''paid'' (Some ''upi'')"
  let ?start = "\<lparr>tx_db = shop, tx_log = [], tx_drawn = 0\<rparr>"
  let ?t0 = "snd (tx_insert_orders uuids 1000 paid_order ?start)"
  let ?t1 = "snd (tx_insert_orderItems uuids (?item\<lparr>ii_orderId := Some ''u''\<rparr>) ?t0)"
  let ?t2 = "snd (tx_update_products_stock (Some ''-2'') (Some ''A'') ?t1)"
  let ?t3 = "snd (tx_insert_stockMovements uuids 1000 (sale_movement paid_order ?o ?item) ?t2)"
  have s0: "tx_insert_orders uuids 1000 paid_order ?start = (Inr ?o, ?t0)"
    by (simp add: tx_eval row_eval decimal_in_eval shop_eval Let_def)
  have run: "createOrder_items uuids 1000 paid_order ?o [] ?t0 = (Inr (), ?t0)"
    by simp
  have s1: "tx_insert_orderItems uuids (?item\<lparr>ii_orderId := Some (o_id ?o)\<rparr>) ?t0 = (Inr (), ?t1)"
    by (simp add: tx_eval row_eval decimal_in_eval shop_eval Let_def)
  have s2: "tx_update_products_stock (ii_quantity ?item) (ii_productId ?item) ?t1 = (Inr (), ?t2)"
    by (simp add: tx_eval row_eval decimal_in_eval shop_eval Let_def)
  have s3: "tx_insert_stockMovements uuids 1000 (sale_movement paid_order ?o ?item) ?t2 =
      (Inl invalid_text_representation, ?t3)"
    by (simp add: tx_eval row_eval decimal_in_eval shop_eval Let_def)
  have inside: "map p_stock (products (tx_db ?t2)) = [12000, 500]"
    "length (orders (tx_db ?t2)) = 1" "length (orderItems (tx_db ?t2)) = 1"
    by (simp_all add: tx_eval row_eval decimal_in_eval shop_eval Let_def)
  have items: "[?item] = [] @ ?item # []" by simp
  from s0 run s1 s2 s3 items
  have fails: "createOrder uuids 1000 paid_order [?item] shop = (Inl invalid_text_representation, shop)"
    by (subst createOrder_rollback) blast
  have upd: "tx_update_products_stock (Some ''-2'') (Some ''A'') ?t1 = (Inr (), ?t2)"
    using s2 by (simp add: line_def)
  have inside_tx: "\<exists>t1 t2 t3.
      createOrder_items uuids 1000 paid_order ?o [] ?t0 = (Inr (), t1) \<and>
      tx_update_products_stock (Some ''-2'') (Some ''A'')
        (snd (tx_insert_orderItems uuids (?item\<lparr>ii_orderId := Some ''u''\<rparr>) t1)) = (Inr (), t2) \<and>
      map p_stock (products (tx_db t2)) = [12000, 500] \<and>
      length (orders (tx_db t2)) = 1 \<and> length (orderItems (tx_db t2)) = 1 \<and>
      tx_insert_stockMovements uuids 1000 (sale_movement paid_order ?o ?item) t2 =
        (Inl invalid_text_representation, t3)"
    by (intro exI conjI) (rule run upd inside s3)+
  from sell_three_lines fails inside_tx show ?thesis by (intro conjI)
qed


text \<open>
  C9.  The statements a call of \<^verbatim>\<open>createOrder\<close> sends begin with the insert of the order
  and continue, item by item in the order of the list, with the insert of the item, the
  update of the product's stock and the insert of the movement.  A call that succeeds
  has sent all of them; a call that fails has sent them up to the one that failed.
\<close>

theorem createOrder_statement_order:
  "(\<exists>newOrder n. createOrder_statements g now order items d =
      take (Suc n) (InsertOrders order # concat (map (item_statements order newOrder) items))) \<and>
   (\<forall>newOrder d'. createOrder g now order items d = (Inr newOrder, d') \<longrightarrow>
      createOrder_statements g now order items d =
        InsertOrders order # concat (map (item_statements order newOrder) items))"
proof
  let ?t = "\<lparr>tx_db = d, tx_log = [], tx_drawn = 0\<rparr>"
  obtain r1 t1 where ins: "tx_insert_orders g now order ?t = (r1, t1)"
    by (cases "tx_insert_orders g now order ?t")
  show "\<exists>newOrder n. createOrder_statements g now order items d =
      take (Suc n) (InsertOrders order # concat (map (item_statements order newOrder) items))"
  proof (cases r1)
    case (Inl e)
    with ins have "createOrder_statements g now order items d = [InsertOrders order]"
      by (simp add: createOrder_statements_def createOrder_body_def tx_insert_orders_Inl(2))
    then have "createOrder_statements g now order items d =
      take (Suc 0) (InsertOrders order # concat (map (item_statements order (stored_order [] 0 [] None)) items))"
      by simp
    then show ?thesis by blast
  next
    case (Inr newOrder)
    obtain r2 t2 where loop: "createOrder_items g now order newOrder items t1 = (r2, t2)"
      by (cases "createOrder_items g now order newOrder items t1")
    from ins Inr have l1: "tx_log t1 = [InsertOrders order]"
      by (simp add: tx_insert_orders_Inr(3))
    from createOrder_items_log [OF loop] l1 obtain n where
      "tx_log t2 = InsertOrders order # take n (concat (map (item_statements order newOrder) items))"
      by auto
    moreover from ins Inr loop have "createOrder_statements g now order items d = tx_log t2"
      by (cases r2) (simp_all add: createOrder_statements_def createOrder_body_def)
    ultimately have "createOrder_statements g now order items d =
      take (Suc n) (InsertOrders order # concat (map (item_statements order newOrder) items))"
      by simp
    then show ?thesis by blast
  qed
next
  show "\<forall>newOrder d'. createOrder g now order items d = (Inr newOrder, d') \<longrightarrow>
      createOrder_statements g now order items d =
        InsertOrders order # concat (map (item_statements order newOrder) items)"
    by (blast dest: createOrder_Inr(3))
qed

lemma item_statements_line:
  "item_statements paid_order newOrder (line pid quantity unitPrice totalPrice) =
     [InsertOrderItems (line pid quantity unitPrice totalPrice\<lparr>ii_orderId := Some (o_id newOrder)\<rparr>),
      UpdateProductsStock (Some quantity) (Some pid),
      InsertStockMovements (sale_movement paid_order newOrder (line pid quantity unitPrice totalPrice))]"
  by (simp add: item_statements_def line_def)

theorem createOrder_statement_order_witness:
  "createOrder uuids 1000 paid_order two_lines shop =
     (Inr (stored_order ''u'' 1000 ''paid'' (Some ''upi'')), shop_sold_once ''paid'' (Some ''upi'')) \<and>
   createOrder_statements uuids 1000 paid_order two_lines shop =
     [InsertOrders paid_order,
      InsertOrderItems (line ''A'' ''2'' ''50.00'' ''100.00''\<lparr>ii_orderId := Some ''u''\<rparr>),
      UpdateProductsStock (Some ''2'') (Some ''A''),
      InsertStockMovements (sale_movement paid_order (stored_order ''u'' 1000 ''paid'' (Some ''upi''))
         (line ''A'' ''2'' ''50.00'' ''100.00'')),
      InsertOrderItems (line ''B'' ''1'' ''20.00'' ''20.00''\<lparr>ii_orderId := Some ''u''\<rparr>),
      UpdateProductsStock (Some ''1'') (Some ''B''),
      InsertStockMovements (sale_movement paid_order (stored_order ''u'' 1000 ''paid'' (Some ''upi''))
         (line ''B'' ''1'' ''20.00'' ''20.00''))]"
proof -
  from createOrder_statement_order [of uuids 1000 paid_order two_lines shop] sell_two_lines
  have "createOrder_statements uuids 1000 paid_order two_lines shop =
          InsertOrders paid_order #
          concat (map (item_statements paid_order (stored_order ''u'' 1000 ''paid'' (Some ''upi'')))
                    two_lines)"
    by blast
  then show ?thesis
    using sell_two_lines
    by (simp add: two_lines_def item_statements_line) (simp add: stored_order_def)
qed


section \<open>The caller's \<^verbatim>\<open>orderId\<close>\<close>

lemma createOrder_items_orderId:
  "createOrder_items g now order newOrder (map (\<lambda>item. item\<lparr>ii_orderId := c item\<rparr>) items) t =
   createOrder_items g now order newOrder items t"
  by (induction items arbitrary: t)
     (auto simp: sale_movement_def split: prod.splits sum.splits)

lemma createOrder_orderId:
  "createOrder g now order (map (\<lambda>item. item\<lparr>ii_orderId := c item\<rparr>) items) d =
   createOrder g now order items d"
  unfolding createOrder_def createOrder_body_def createOrder_items_orderId ..

lemma order_item_of_orderId:
  "list_all2 (order_item_of newOrder) items rows \<Longrightarrow>
   list_all (\<lambda>r. oi_orderId r = o_id newOrder) rows"
  by (induction rule: list_all2_induct) (simp_all add: order_item_of_def)

text \<open>
  C10.  Every \<^verbatim>\<open>order_items\<close> row a successful call writes carries the id of the order
  created by that call, and what the caller put in the items' \<^verbatim>\<open>orderId\<close> has no
  effect: with any other values there the call returns the same order and leaves the
  same store.
\<close>

theorem createOrder_overrides_orderId:
  assumes "createOrder g now order items d = (Inr newOrder, d')"
  shows "(\<exists>rows. orderItems d' = orderItems d @ rows \<and> length rows = length items \<and>
                 list_all (\<lambda>r. oi_orderId r = o_id newOrder) rows) \<and>
         createOrder g now order (map (\<lambda>item. item\<lparr>ii_orderId := c item\<rparr>) items) d =
           (Inr newOrder, d')"
proof -
  from createOrder_Inr(2) [OF assms] obtain rows moves where
    d': "d' = d\<lparr>
           products := stock_taken items (products d),
           orders := orders d @ [newOrder],
           orderItems := orderItems d @ rows,
           stockMovements := stockMovements d @ moves\<rparr>"
    and rows: "list_all2 (order_item_of newOrder) items rows"
    by blast
  from d' have "orderItems d' = orderItems d @ rows" by simp
  moreover from rows have "length rows = length items" by (simp add: list_all2_lengthD)
  moreover from rows have "list_all (\<lambda>r. oi_orderId r = o_id newOrder) rows"
    by (rule order_item_of_orderId)
  ultimately show ?thesis using assms by (auto simp: createOrder_orderId)
qed

theorem createOrder_overrides_orderId_witness:
  "createOrder uuids 1000 paid_order two_lines shop =
     (Inr (stored_order ''u'' 1000 ''paid'' (Some ''upi'')), shop_sold_once ''paid'' (Some ''upi'')) \<and>
   createOrder uuids 1000 paid_order
       (map (\<lambda>item. item\<lparr>ii_orderId := Some ''another-order''\<rparr>) two_lines) shop =
     (Inr (stored_order ''u'' 1000 ''paid'' (Some ''upi'')), shop_sold_once ''paid'' (Some ''upi'')) \<and>
   map oi_orderId (orderItems (shop_sold_once ''paid'' (Some ''upi''))) = [''u'', ''u'']"
proof -
  from createOrder_overrides_orderId [OF sell_two_lines, of "\<lambda>item. Some ''another-order''"]
  have "createOrder uuids 1000 paid_order
       (map (\<lambda>item. item\<lparr>ii_orderId := Some ''another-order''\<rparr>) two_lines) shop =
     (Inr (stored_order ''u'' 1000 ''paid'' (Some ''upi'')), shop_sold_once ''paid'' (Some ''upi''))"
    by blast
  moreover have
    "map oi_orderId (orderItems (shop_sold_once ''paid'' (Some ''upi''))) = [''u'', ''u'']"
    by (simp add: shop_sold_once_def stored_item_def)
  ultimately show ?thesis using sell_two_lines by blast
qed


section \<open>Stock on hand and the outcome of \<^verbatim>\<open>createOrder\<close>\<close>

lemma p_id_decrement: "p_id (decrement pid x p) = p_id p"
  by (simp add: decrement_def)

lemma map_p_id_decrement: "map p_id (map (decrement pid x) ps) = map p_id ps"
  by (simp add: p_id_decrement)

lemma map_p_id_take_item: "map p_id (take_item item ps) = map p_id ps"
  by (cases "quantity_read item") (simp_all add: take_item_def p_id_decrement)

lemma map_p_id_stock_taken: "map p_id (stock_taken items ps) = map p_id ps"
  by (induction items arbitrary: ps) (simp_all add: map_p_id_take_item)

lemma fits_decrement:
  "list_all (\<lambda>p. fits 10 (p_stock p)) (filter (\<lambda>p. Some (p_id p) = pid) (map (decrement pid x) ps)) =
   list_all (\<lambda>p. fits 10 (p_stock (decrement pid x p))) (filter (\<lambda>p. Some (p_id p) = pid) ps)"
  by (induction ps) (auto simp: decrement_def)

text \<open>The inserts look at the ids of the products and at nothing else of them.\<close>

lemma other_products_simps:
  "users (d\<lparr>products := ps\<rparr>) = users d"
  "customers (d\<lparr>products := ps\<rparr>) = customers d"
  "orders (d\<lparr>products := ps\<rparr>) = orders d"
  "orderItems (d\<lparr>products := ps\<rparr>) = orderItems d"
  "stockMovements (d\<lparr>products := ps\<rparr>) = stockMovements d"
  "products (d\<lparr>products := ps\<rparr>) = ps"
  by simp_all

lemma order_row_other_products:
  "order_row newId now v (d\<lparr>products := ps\<rparr>) = order_row newId now v d"
  unfolding order_row_def other_products_simps ..

lemma orderItem_row_other_products:
  assumes "map p_id ps = map p_id (products d)"
  shows "orderItem_row newId v (d\<lparr>products := ps\<rparr>) = orderItem_row newId v d"
  unfolding orderItem_row_def other_products_simps assms ..

lemma stockMovement_row_other_products:
  assumes "map p_id ps = map p_id (products d)"
  shows "stockMovement_row newId now v (d\<lparr>products := ps\<rparr>) = stockMovement_row newId now v d"
  unfolding stockMovement_row_def other_products_simps assms ..

lemma tx_insert_orders_other_products:
  assumes "tx_insert_orders g now v t = (r, t')"
  shows "tx_insert_orders g now v (t\<lparr>tx_db := (tx_db t)\<lparr>products := ps\<rparr>\<rparr>) =
           (r, t'\<lparr>tx_db := (tx_db t')\<lparr>products := ps\<rparr>\<rparr>)"
  using assms
  by (auto simp: tx_insert_orders_def issue_def Let_def order_row_other_products
        split: sum.splits)

lemma tx_insert_orderItems_other_products:
  assumes "tx_insert_orderItems g v t = (r, t')"
    and "map p_id ps = map p_id (products (tx_db t))"
  shows "tx_insert_orderItems g v (t\<lparr>tx_db := (tx_db t)\<lparr>products := ps\<rparr>\<rparr>) =
           (r, t'\<lparr>tx_db := (tx_db t')\<lparr>products := ps\<rparr>\<rparr>)"
  using assms(1)
  by (auto simp: tx_insert_orderItems_def issue_def Let_def
        orderItem_row_other_products [OF assms(2)] split: sum.splits)

lemma tx_insert_stockMovements_other_products:
  assumes "tx_insert_stockMovements g now v t = (r, t')"
    and "map p_id ps = map p_id (products (tx_db t))"
  shows "tx_insert_stockMovements g now v (t\<lparr>tx_db := (tx_db t)\<lparr>products := ps\<rparr>\<rparr>) =
           (r, t'\<lparr>tx_db := (tx_db t')\<lparr>products := ps\<rparr>\<rparr>)"
  using assms(1)
  by (auto simp: tx_insert_stockMovements_def issue_def Let_def
        stockMovement_row_other_products [OF assms(2)] split: sum.splits)

text \<open>
  The update does to other stocks what it does to these, as long as the new values fit
  the column.
\<close>

lemma tx_update_products_stock_other_products:
  assumes "tx_update_products_stock (ii_quantity item) (ii_productId item) t = (Inr u, t')"
    and "list_all (\<lambda>p. fits 10 (p_stock p))
           (filter (\<lambda>p. Some (p_id p) = ii_productId item) (take_item item ps))"
  shows "tx_update_products_stock (ii_quantity item) (ii_productId item)
           (t\<lparr>tx_db := (tx_db t)\<lparr>products := ps\<rparr>\<rparr>) =
           (Inr u, t'\<lparr>tx_db := (tx_db t')\<lparr>products := take_item item ps\<rparr>\<rparr>)"
    and "products (tx_db t') = take_item item (products (tx_db t))"
proof -
  from tx_update_products_stock_Inr(1) [OF assms(1)] obtain r x where
    q: "ii_quantity item = Some r" "numeric_in r = Inr x" and
    d': "tx_db t' = (tx_db t)\<lparr>products := map (decrement (ii_productId item) x) (products (tx_db t))\<rparr>"
    by blast
  note take = take_item_update [OF q]
  from d' show "products (tx_db t') = take_item item (products (tx_db t))"
    by (simp add: take)
  from assms(1) q obtain i where i: "ii_productId item = Some i"
    by (auto simp: tx_update_products_stock_def Let_def split: option.splits)
  from assms(2) have "list_all (\<lambda>p. fits 10 (p_stock (decrement (ii_productId item) x p)))
      (filter (\<lambda>p. Some (p_id p) = ii_productId item) ps)"
    by (simp only: take fits_decrement)
  with assms(1) q i
  show "tx_update_products_stock (ii_quantity item) (ii_productId item)
           (t\<lparr>tx_db := (tx_db t)\<lparr>products := ps\<rparr>\<rparr>) =
           (Inr u, t'\<lparr>tx_db := (tx_db t')\<lparr>products := take_item item ps\<rparr>\<rparr>)"
    by (auto simp: tx_update_products_stock_def issue_def Let_def take split: if_splits)
qed

text \<open>So the loop does with other stocks what it does with these.\<close>

lemma createOrder_items_other_products:
  assumes "createOrder_items g now order newOrder items t = (Inr u, t')"
    and "map p_id ps = map p_id (products (tx_db t))"
    and "stock_column_holds items ps"
  shows "createOrder_items g now order newOrder items (t\<lparr>tx_db := (tx_db t)\<lparr>products := ps\<rparr>\<rparr>) =
           (Inr u, t'\<lparr>tx_db := (tx_db t')\<lparr>products := stock_taken items ps\<rparr>\<rparr>)"
  using assms
proof (induction items arbitrary: t ps)
  case Nil
  then show ?case by simp
next
  case (Cons item items)
  from Cons.prems(1) obtain t1 t2 t3 where
    s1: "tx_insert_orderItems g (item\<lparr>ii_orderId := Some (o_id newOrder)\<rparr>) t = (Inr (), t1)" and
    s2: "tx_update_products_stock (ii_quantity item) (ii_productId item) t1 = (Inr (), t2)" and
    s3: "tx_insert_stockMovements g now (sale_movement order newOrder item) t2 = (Inr (), t3)" and
    s4: "createOrder_items g now order newOrder items t3 = (Inr u, t')"
    by (rule createOrder_items_Cons_Inr)
  from Cons.prems(3) have
    fit: "list_all (\<lambda>p. fits 10 (p_stock p))
            (filter (\<lambda>p. Some (p_id p) = ii_productId item) (take_item item ps))" and
    rest: "stock_column_holds items (take_item item ps)"
    by simp_all
  from tx_insert_orderItems_Inr(1) [OF s1] have p1: "products (tx_db t1) = products (tx_db t)"
    by auto
  note upd = tx_update_products_stock_other_products [OF s2 fit]
  from tx_insert_stockMovements_Inr(1) [OF s3]
  have p3: "products (tx_db t3) = products (tx_db t2)" by auto
  have ids2: "map p_id (take_item item ps) = map p_id (products (tx_db t2))"
    by (simp add: upd(2) p1 map_p_id_take_item Cons.prems(2))
  have r1: "tx_insert_orderItems g (item\<lparr>ii_orderId := Some (o_id newOrder)\<rparr>)
              (t\<lparr>tx_db := (tx_db t)\<lparr>products := ps\<rparr>\<rparr>) =
            (Inr (), t1\<lparr>tx_db := (tx_db t1)\<lparr>products := ps\<rparr>\<rparr>)"
    by (rule tx_insert_orderItems_other_products [OF s1 Cons.prems(2)])
  have r3: "tx_insert_stockMovements g now (sale_movement order newOrder item)
              (t2\<lparr>tx_db := (tx_db t2)\<lparr>products := take_item item ps\<rparr>\<rparr>) =
            (Inr (), t3\<lparr>tx_db := (tx_db t3)\<lparr>products := take_item item ps\<rparr>\<rparr>)"
    by (rule tx_insert_stockMovements_other_products [OF s3 ids2])
  from ids2 p3 have ids3: "map p_id (take_item item ps) = map p_id (products (tx_db t3))"
    by simp
  from Cons.IH [OF s4 ids3 rest] r1 upd(1) r3 show ?case by simp
qed

text \<open>
  C5, as the claim states it, fails where the quantity has more than three decimals: the
  stock is not set to the stock less the quantity.  One line asks for 0.0005 of product
  A, of which there are 10.000.  The call succeeds and the stock is still 10.000.
\<close>

theorem createOrder_stock_unchanged_counterexample:
  "createOrder uuids 1000 paid_order [line ''A'' ''0.0005'' ''50.00'' ''0.03''] shop =
     (Inr (stored_order ''u'' 1000 ''paid'' (Some ''upi'')), shop_sold_line 1 3 10000) \<and>
   quantity_read (line ''A'' ''0.0005'' ''50.00'' ''0.03'') = Some (5, 4) \<and>
   quantity_value (line ''A'' ''0.0005'' ''50.00'' ''0.03'') = Some 1 \<and>
   map p_stock (products shop) = [10000, 500] \<and>
   map p_stock (products (shop_sold_line 1 3 10000)) = [10000, 500]"
proof -
  have "quantity_read (line ''A'' ''0.0005'' ''50.00'' ''0.03'') = Some (5, 4)"
    "quantity_value (line ''A'' ''0.0005'' ''50.00'' ''0.03'') = Some 1"
    by (simp_all add: vocab_eval decimal_in_eval line_def Let_def)
  moreover have "map p_stock (products shop) = [10000, 500]"
    "map p_stock (products (shop_sold_line 1 3 10000)) = [10000, 500]"
    by (simp_all add: shop_sold_line_def shop_eval)
  ultimately show ?thesis using sell_sliver by simp
qed

text \<open>
  C5, amended.  The stock update of \<^verbatim>\<open>createOrder\<close> compares nothing with the stock on
  hand.  After a successful call the stock of every product is what the items leave of
  it: each item in turn sets the stock of the product it names to the stock less its
  quantity, rounded to the three decimals of the column.  And had the products had any
  other stocks, too little or less than nothing, the same call would have succeeded all
  the same, with the same order and the same rows, and left of those stocks what the
  items leave of them; this is so for all stocks from which every value that results
  fits the ten digits of the column.
\<close>

theorem createOrder_no_availability_check:
  assumes "createOrder g now order items d = (Inr newOrder, d')"
    and "map p_id ps = map p_id (products d)"
    and "stock_column_holds items ps"
  shows "products d' = stock_taken items (products d) \<and>
         createOrder g now order items (d\<lparr>products := ps\<rparr>) =
           (Inr newOrder, d'\<lparr>products := stock_taken items ps\<rparr>)"
proof -
  let ?t = "\<lparr>tx_db = d, tx_log = [], tx_drawn = 0\<rparr>"
  from assms(1) obtain t' where
    body: "createOrder_body g now order items ?t = (Inr newOrder, t')" and d': "tx_db t' = d'"
    by (rule createOrder_Inr_body)
  from body obtain t1 where
    ins: "tx_insert_orders g now order ?t = (Inr newOrder, t1)" and
    loop: "createOrder_items g now order newOrder items t1 = (Inr (), t')"
    by (rule createOrder_body_Inr)
  from tx_insert_orders_Inr(2) [OF ins] have "products (tx_db t1) = products d" by simp
  with assms(2) have ids: "map p_id ps = map p_id (products (tx_db t1))" by simp
  from createOrder_items_other_products [OF loop ids assms(3)]
    tx_insert_orders_other_products [OF ins, of ps] d'
  have "createOrder g now order items (d\<lparr>products := ps\<rparr>) =
      (Inr newOrder, d'\<lparr>products := stock_taken items ps\<rparr>)"
    by (simp add: createOrder_def createOrder_body_def transaction_def)
  moreover from createOrder_Inr(2) [OF assms(1)]
  have "products d' = stock_taken items (products d)"
    by auto
  ultimately show ?thesis by simp
qed

text \<open>
  With -10.000 of A and -19.500 of B on hand the two lines are sold as before and leave
  -12.000 and -20.500.
\<close>

theorem createOrder_no_availability_check_witness:
  "createOrder uuids 1000 paid_order two_lines shop =
     (Inr (stored_order ''u'' 1000 ''paid'' (Some ''upi'')), shop_sold_once ''paid'' (Some ''upi'')) \<and>
   stock_column_holds two_lines [product_A\<lparr>p_stock := - 10000\<rparr>, product_B\<lparr>p_stock := - 19500\<rparr>] \<and>
   createOrder uuids 1000 paid_order two_lines
       (shop\<lparr>products := [product_A\<lparr>p_stock := - 10000\<rparr>, product_B\<lparr>p_stock := - 19500\<rparr>]\<rparr>) =
     (Inr (stored_order ''u'' 1000 ''paid'' (Some ''upi'')),
      (shop_sold_once ''paid'' (Some ''upi''))\<lparr>products :=
         [product_A\<lparr>p_stock := - 12000\<rparr>, product_B\<lparr>p_stock := - 20500\<rparr>]\<rparr>)"
proof -
  let ?ps = "[product_A\<lparr>p_stock := - 10000\<rparr>, product_B\<lparr>p_stock := - 19500\<rparr>]"
  have ids: "map p_id ?ps = map p_id (products shop)"
    by (simp add: shop_eval)
  have taken: "stock_taken two_lines ?ps =
      [product_A\<lparr>p_stock := - 12000\<rparr>, product_B\<lparr>p_stock := - 20500\<rparr>]"
    by (simp add: vocab_eval decimal_in_eval shop_eval decrement_def minus_exact_def Let_def)
  have fit: "stock_column_holds two_lines ?ps"
    by (simp add: vocab_eval decimal_in_eval shop_eval decrement_def minus_exact_def fits_def
          Let_def)
  from createOrder_no_availability_check [OF sell_two_lines ids fit] sell_two_lines fit
  show ?thesis by (simp only: taken) 
qed


section \<open>The same payload, sent again\<close>

text \<open>
  What the store checks of an order is its amounts, its id, its user and its customer.
  An order that was accepted is accepted again under an id that is not taken.
\<close>

lemma order_row_again:
  assumes "order_row i now v d = Inr row"
    and "i' \<notin> set (map o_id (orders d'))"
    and "users d' = users d" and "customers d' = customers d"
  shows "\<exists>row'. order_row i' now' v d' = Inr row'"
  using assms
  by (auto simp: order_row_def and_then_Inr split: if_splits)

text \<open>
  An item that was accepted and carries no id of its own is accepted again, under another
  order of the store, when the id drawn for it is not taken.
\<close>

lemma orderItem_row_again:
  assumes "orderItem_row i v d = Inr r"
    and "ii_id v = Undefined"
    and "i' \<notin> set (map oi_id (orderItems d'))"
    and "oid' \<in> set (map o_id (orders d'))"
    and "map p_id (products d') = map p_id (products d)"
  shows "\<exists>r'. orderItem_row i' (v\<lparr>ii_orderId := Some oid'\<rparr>) d' = Inr r'"
proof -
  from assms(1) obtain qr ur tr gr q u p gst where
    reads: "optional_in (null_if_absent (ii_quantity v)) = Inr qr"
      "optional_in (null_if_absent (ii_unitPrice v)) = Inr ur"
      "optional_in (null_if_absent (ii_totalPrice v)) = Inr tr"
      "optional_in (ii_gstRate v) = Inr gr"
    and puts: "coerce_optional 10 3 0 qr = Inr q" "coerce_optional 10 2 0 ur = Inr u"
      "coerce_optional 10 2 0 tr = Inr p" "coerce_optional 5 2 0 gr = Inr gst"
    and checks: "(case (defaulted i (ii_id v), ii_orderId v, ii_productId v, q, u, p) of
         (Some i, Some oid, Some pid, Some q, Some up, Some tp) \<Rightarrow>
           if i \<in> set (map oi_id (orderItems d)) then Inl unique_violation
           else if oid \<notin> set (map o_id (orders d)) then Inl foreign_key_violation
           else if pid \<notin> set (map p_id (products d)) then Inl foreign_key_violation
           else Inr \<lparr>
             oi_id = i,
             oi_orderId = oid,
             oi_productId = pid,
             oi_quantity = q,
             oi_unitPrice = up,
             oi_totalPrice = tp,
             oi_gstRate = gst\<rparr>
       | _ \<Rightarrow> Inl not_null_violation) = Inr r"
    unfolding orderItem_row_def and_then_Inr by blast
  from checks obtain pid qv uv pv where
    some: "ii_productId v = Some pid" "q = Some qv" "u = Some uv" "p = Some pv"
    by (auto split: option.splits)
  from checks some have pid: "pid \<in> set (map p_id (products d))"
    by (auto split: option.splits if_splits)
  with assms(5) have "pid \<in> set (map p_id (products d'))" by simp
  with assms(2,3,4) reads puts some show ?thesis
    by (simp add: orderItem_row_def and_then_def defaulted_def)
qed

text \<open>A movement that was accepted is accepted again, for another order of the store.\<close>

lemma stockMovement_row_again:
  assumes "stockMovement_row i now v d = Inr m"
    and "i' \<notin> set (map sm_id (stockMovements d'))"
    and "oid' \<in> set (map o_id (orders d'))"
    and "map p_id (products d') = map p_id (products d)"
    and "users d' = users d"
  shows "\<exists>m'. stockMovement_row i' now' (v\<lparr>ism_orderId := Some oid'\<rparr>) d' = Inr m'"
proof -
  from stockMovement_row_Inr [OF assms(1)] have
    pid: "ism_productId v = Some (sm_productId m)" and
    q: "numeric 10 3 (ism_quantity v) = Inr (sm_quantity m)" and
    ok: "sm_productId m \<in> set (map p_id (products d))" "ism_userId v \<in> set (users d)"
    by simp_all
  from ok assms(4,5) have "sm_productId m \<in> set (map p_id (products d'))"
    "ism_userId v \<in> set (users d')"
    by simp_all
  with pid q assms(2,3) show ?thesis
    by (simp add: stockMovement_row_def and_then_def references_ok_def)
qed

lemma sale_movement_orderId:
  "sale_movement order second item = (sale_movement order first item)\<lparr>ism_orderId := Some (o_id second)\<rparr>"
  by (simp add: sale_movement_def)

text \<open>
  So the loop that came through the items comes through them again, for another order of
  the store, when the items carry no ids of their own, the ids drawn are not taken and
  the stock column holds the new values.
\<close>

lemma createOrder_items_again:
  assumes "createOrder_items g now order first items t = (Inr u, t')"
    and "list_all (\<lambda>item. ii_id item = Undefined) items"
    and "users (tx_db s) = users (tx_db t)"
    and "map p_id (products (tx_db s)) = map p_id (products (tx_db t))"
    and "o_id second \<in> set (map o_id (orders (tx_db s)))"
    and "draws_free g' (tx_drawn s) (length items)
           (map oi_id (orderItems (tx_db s))) (map sm_id (stockMovements (tx_db s)))"
    and "stock_column_holds items (products (tx_db s))"
  shows "\<exists>s'. createOrder_items g' now' order second items s = (Inr (), s')"
  using assms
proof (induction items arbitrary: t s)
  case Nil
  then show ?case by simp
next
  case (Cons item items)
  let ?pid = "ii_productId item"
  from Cons.prems(1) obtain t1 t2 t3 where
    s1: "tx_insert_orderItems g (item\<lparr>ii_orderId := Some (o_id first)\<rparr>) t = (Inr (), t1)" and
    s2: "tx_update_products_stock (ii_quantity item) ?pid t1 = (Inr (), t2)" and
    s3: "tx_insert_stockMovements g now (sale_movement order first item) t2 = (Inr (), t3)" and
    s4: "createOrder_items g now order first items t3 = (Inr u, t')"
    by (rule createOrder_items_Cons_Inr)
  from Cons.prems(2) have noid: "ii_id item = Undefined"
    and noids: "list_all (\<lambda>item. ii_id item = Undefined) items"
    by simp_all
  from Cons.prems(6) have
    free1: "g' (tx_drawn s) \<notin> set (map oi_id (orderItems (tx_db s)))" and
    free2: "g' (Suc (tx_drawn s)) \<notin> set (map sm_id (stockMovements (tx_db s)))" and
    free: "draws_free g' (Suc (Suc (tx_drawn s))) (length items)
             (map oi_id (orderItems (tx_db s)) @ [g' (tx_drawn s)])
             (map sm_id (stockMovements (tx_db s)) @ [g' (Suc (tx_drawn s))])"
    by simp_all
  from Cons.prems(7) have
    fit: "list_all (\<lambda>p. fits 10 (p_stock p))
            (filter (\<lambda>p. Some (p_id p) = ?pid) (take_item item (products (tx_db s))))" and
    rest: "stock_column_holds items (take_item item (products (tx_db s)))"
    by simp_all
  from tx_insert_orderItems_Inr(1) [OF s1] obtain r where
    r: "orderItem_row (g (tx_drawn t)) (item\<lparr>ii_orderId := Some (o_id first)\<rparr>) (tx_db t) = Inr r"
    and d1: "tx_db t1 = (tx_db t)\<lparr>orderItems := orderItems (tx_db t) @ [r]\<rparr>"
    by blast
  from tx_update_products_stock_Inr(1) [OF s2] obtain qt x where
    q: "ii_quantity item = Some qt" "numeric_in qt = Inr x"
    and d2: "tx_db t2 = (tx_db t1)\<lparr>products := map (decrement ?pid x) (products (tx_db t1))\<rparr>"
    by blast
  note take = take_item_update [OF q]
  from tx_insert_stockMovements_Inr(1) [OF s3] obtain m where
    m: "stockMovement_row (g (tx_drawn t2)) now (sale_movement order first item) (tx_db t2) = Inr m"
    and d3: "tx_db t3 = (tx_db t2)\<lparr>stockMovements := stockMovements (tx_db t2) @ [m]\<rparr>"
    by blast
  from orderItem_row_Inr(3) [OF r] obtain i where i: "?pid = Some i" by simp
  from orderItem_row_again [OF r _ free1 Cons.prems(5) Cons.prems(4)] noid
  obtain r' where
    r': "orderItem_row (g' (tx_drawn s)) (item\<lparr>ii_orderId := Some (o_id second)\<rparr>) (tx_db s) = Inr r'"
    by auto
  from orderItem_row_Inr(1) [OF r'] noid have id_r': "oi_id r' = g' (tx_drawn s)"
    by (simp add: defaulted_def)
  define s1' where "s1' = s\<lparr>tx_log := tx_log s @ [InsertOrderItems (item\<lparr>ii_orderId := Some (o_id second)\<rparr>)],
      tx_db := (tx_db s)\<lparr>orderItems := orderItems (tx_db s) @ [r']\<rparr>,
      tx_drawn := Suc (tx_drawn s)\<rparr>"
  have a1: "tx_insert_orderItems g' (item\<lparr>ii_orderId := Some (o_id second)\<rparr>) s = (Inr (), s1')"
    using r' noid by (simp add: tx_insert_orderItems_def issue_def Let_def s1'_def)
  define s2' where "s2' = s1'\<lparr>tx_log := tx_log s1' @ [UpdateProductsStock (ii_quantity item) ?pid],
      tx_db := (tx_db s1')\<lparr>products := take_item item (products (tx_db s))\<rparr>\<rparr>"
  from fit have "list_all (\<lambda>p. fits 10 (p_stock (decrement ?pid x p)))
      (filter (\<lambda>p. Some (p_id p) = ?pid) (products (tx_db s)))"
    by (simp only: take fits_decrement)
  then have a2: "tx_update_products_stock (ii_quantity item) ?pid s1' = (Inr (), s2')"
    using q i by (simp add: tx_update_products_stock_def issue_def Let_def s2'_def s1'_def take)
  have ids2: "map p_id (products (tx_db s2')) = map p_id (products (tx_db t2))"
    by (simp add: s2'_def s1'_def d2 d1 map_p_id_take_item Cons.prems(4) p_id_decrement)
  have users2: "users (tx_db s2') = users (tx_db t2)"
    by (simp add: s2'_def s1'_def d2 d1 Cons.prems(3))
  have order2: "o_id second \<in> set (map o_id (orders (tx_db s2')))"
    using Cons.prems(5) by (simp add: s2'_def s1'_def)
  have free2': "g' (tx_drawn s2') \<notin> set (map sm_id (stockMovements (tx_db s2')))"
    using free2 by (simp add: s2'_def s1'_def)
  from stockMovement_row_again [OF m free2' order2 ids2 users2, of now']
  obtain m' where
    m': "stockMovement_row (g' (tx_drawn s2')) now' (sale_movement order second item) (tx_db s2') = Inr m'"
    by (auto simp: sale_movement_orderId [of order second item first])
  from stockMovement_row_Inr(1) [OF m'] have id_m': "sm_id m' = g' (Suc (tx_drawn s))"
    by (simp add: s2'_def s1'_def)
  define s3' where "s3' = s2'\<lparr>tx_log := tx_log s2' @ [InsertStockMovements (sale_movement order second item)],
      tx_db := (tx_db s2')\<lparr>stockMovements := stockMovements (tx_db s2') @ [m']\<rparr>,
      tx_drawn := Suc (tx_drawn s2')\<rparr>"
  have a3: "tx_insert_stockMovements g' now' (sale_movement order second item) s2' = (Inr (), s3')"
    using m' by (simp add: tx_insert_stockMovements_def issue_def Let_def s3'_def)
  have "users (tx_db s3') = users (tx_db t3)"
    by (simp add: s3'_def users2 d3)
  moreover have "map p_id (products (tx_db s3')) = map p_id (products (tx_db t3))"
    using ids2 by (simp add: s3'_def d3)
  moreover have "o_id second \<in> set (map o_id (orders (tx_db s3')))"
    using order2 by (simp add: s3'_def)
  moreover have "draws_free g' (tx_drawn s3') (length items)
      (map oi_id (orderItems (tx_db s3'))) (map sm_id (stockMovements (tx_db s3')))"
    using free by (simp add: s3'_def s2'_def s1'_def id_r' id_m')
  moreover have "stock_column_holds items (products (tx_db s3'))"
    using rest by (simp add: s3'_def s2'_def)
  ultimately obtain s' where "createOrder_items g' now' order second items s3' = (Inr (), s')"
    using Cons.IH [OF s4 noids] by blast
  with a1 a2 a3 show ?case by simp
qed

text \<open>
  C8.  Sending the same order and the same items a second time is not recognised.  After
  a call that succeeded, a second call with the same header and the same items succeeds
  as well, whenever the items carry no ids of their own, the ids generated for the second
  call are not in use, and the stock column holds the values that result: the store then
  holds two order rows with two different ids and the same order number, a second set of
  item and movement rows under the second order, and the stock has been taken a second
  time.  Nothing in the store compares order numbers.
\<close>

theorem createOrder_not_idempotent:
  assumes "createOrder g now order items d = (Inr first, d1)"
    and "list_all (\<lambda>item. ii_id item = Undefined) items"
    and "g' 0 \<notin> set (map o_id (orders d1))"
    and "draws_free g' 1 (length items) (map oi_id (orderItems d1)) (map sm_id (stockMovements d1))"
    and "stock_column_holds items (products d1)"
  shows "\<exists>second d2.
           createOrder g' now' order items d1 = (Inr second, d2) \<and>
           orders d2 = orders d @ [first, second] \<and>
           o_id first \<noteq> o_id second \<and>
           o_orderNumber first = io_orderNumber order \<and>
           o_orderNumber second = io_orderNumber order \<and>
           (\<exists>rows. orderItems d2 = orderItems d1 @ rows \<and>
                   list_all2 (order_item_of second) items rows) \<and>
           (\<exists>moves. stockMovements d2 = stockMovements d1 @ moves \<and>
                   list_all2 (sale_movement_of second) items moves) \<and>
           products d2 = stock_taken items (products d1)"
proof -
  let ?t = "\<lparr>tx_db = d, tx_log = [], tx_drawn = 0\<rparr>"
  let ?s = "\<lparr>tx_db = d1, tx_log = [], tx_drawn = 0\<rparr>"
  note w1 = createOrder_Inr [OF assms(1)]
  from w1(2) obtain rows1 moves1 where
    d1: "d1 = d\<lparr>
           products := stock_taken items (products d),
           orders := orders d @ [first],
           orderItems := orderItems d @ rows1,
           stockMovements := stockMovements d @ moves1\<rparr>"
    by blast
  from assms(1) obtain t' where
    body: "createOrder_body g now order items ?t = (Inr first, t')"
    by (rule createOrder_Inr_body)
  from body obtain t1 where
    ins: "tx_insert_orders g now order ?t = (Inr first, t1)" and
    loop: "createOrder_items g now order first items t1 = (Inr (), t')"
    by (rule createOrder_body_Inr)
  from tx_insert_orders_Inr(2) [OF ins] have t1: "tx_db t1 = d\<lparr>orders := orders d @ [first]\<rparr>"
    by simp
  from order_row_again [OF w1(1) assms(3), of now'] obtain second where
    second: "order_row (g' 0) now' order d1 = Inr second"
    by (auto simp: d1)
  define s1 where "s1 = \<lparr>tx_db = d1\<lparr>orders := orders d1 @ [second]\<rparr>,
      tx_log = [InsertOrders order], tx_drawn = Suc 0\<rparr>"
  have ins2: "tx_insert_orders g' now' order ?s = (Inr second, s1)"
    using second by (simp add: tx_insert_orders_def issue_def Let_def s1_def)
  have "users (tx_db s1) = users (tx_db t1)"
    by (simp add: s1_def t1 d1)
  moreover have "map p_id (products (tx_db s1)) = map p_id (products (tx_db t1))"
    by (simp add: s1_def t1 d1 map_p_id_stock_taken)
  moreover have "o_id second \<in> set (map o_id (orders (tx_db s1)))"
    by (simp add: s1_def)
  moreover have "draws_free g' (tx_drawn s1) (length items)
      (map oi_id (orderItems (tx_db s1))) (map sm_id (stockMovements (tx_db s1)))"
    using assms(4) by (simp add: s1_def)
  moreover have "stock_column_holds items (products (tx_db s1))"
    using assms(5) by (simp add: s1_def)
  ultimately obtain s' where
    loop2: "createOrder_items g' now' order second items s1 = (Inr (), s')"
    using createOrder_items_again [OF loop assms(2), of s1 second g' now'] by blast
  from ins2 loop2 have call2: "createOrder g' now' order items d1 = (Inr second, tx_db s')"
    by (simp add: createOrder_def createOrder_body_def transaction_def)
  note w2 = createOrder_Inr [OF call2]
  from w2(2) obtain rows2 moves2 where
    d2: "tx_db s' = d1\<lparr>
           products := stock_taken items (products d1),
           orders := orders d1 @ [second],
           orderItems := orderItems d1 @ rows2,
           stockMovements := stockMovements d1 @ moves2\<rparr>"
    and l2: "list_all2 (order_item_of second) items rows2"
      "list_all2 (sale_movement_of second) items moves2"
    by blast
  from order_row_Inr(8) [OF w2(1)] d1 order_row_Inr(1) [OF w2(1)]
  have fresh: "o_id first \<noteq> o_id second" by auto
  have numbers: "o_orderNumber first = io_orderNumber order"
    "o_orderNumber second = io_orderNumber order"
    by (rule order_row_Inr(2) [OF w1(1)], rule order_row_Inr(2) [OF w2(1)])
  have "orders (tx_db s') = orders d @ [first, second]"
    by (simp add: d2) (simp add: d1)
  moreover have "\<exists>rows. orderItems (tx_db s') = orderItems d1 @ rows \<and>
      list_all2 (order_item_of second) items rows"
    using l2(1) by (auto simp: d2)
  moreover have "\<exists>moves. stockMovements (tx_db s') = stockMovements d1 @ moves \<and>
      list_all2 (sale_movement_of second) items moves"
    using l2(2) by (auto simp: d2)
  moreover have "products (tx_db s') = stock_taken items (products d1)"
    by (simp add: d2)
  ultimately show ?thesis using call2 fresh numbers by blast
qed

text \<open>
  The two lines are sold, and sold again with the ids \<^verbatim>\<open>v\<close>, \<^verbatim>\<open>vi\<close>, ...: the store holds
  the orders \<^verbatim>\<open>u\<close> and \<^verbatim>\<open>v\<close>, both numbered ORD-1.
\<close>

theorem createOrder_not_idempotent_witness:
  "createOrder uuids 1000 paid_order two_lines shop =
     (Inr (stored_order ''u'' 1000 ''paid'' (Some ''upi'')), shop_sold_once ''paid'' (Some ''upi'')) \<and>
   list_all (\<lambda>item. ii_id item = Undefined) two_lines \<and>
   later_uuids 0 \<notin> set (map o_id (orders (shop_sold_once ''paid'' (Some ''upi'')))) \<and>
   draws_free later_uuids 1 (length two_lines)
     (map oi_id (orderItems (shop_sold_once ''paid'' (Some ''upi''))))
     (map sm_id (stockMovements (shop_sold_once ''paid'' (Some ''upi'')))) \<and>
   stock_column_holds two_lines (products (shop_sold_once ''paid'' (Some ''upi''))) \<and>
   (\<exists>second d2.
      createOrder later_uuids 2000 paid_order two_lines (shop_sold_once ''paid'' (Some ''upi'')) =
        (Inr second, d2) \<and>
      orders d2 = orders shop @ [stored_order ''u'' 1000 ''paid'' (Some ''upi''), second] \<and>
      o_id (stored_order ''u'' 1000 ''paid'' (Some ''upi'')) \<noteq> o_id second \<and>
      o_orderNumber (stored_order ''u'' 1000 ''paid'' (Some ''upi'')) = io_orderNumber paid_order \<and>
      o_orderNumber second = io_orderNumber paid_order) \<and>
   createOrder later_uuids 2000 paid_order two_lines (shop_sold_once ''paid'' (Some ''upi'')) =
     (Inr (stored_order ''v'' 2000 ''paid'' (Some ''upi'')), shop_sold_twice)"
proof -
  have noids: "list_all (\<lambda>item. ii_id item = Undefined) two_lines"
    by (simp add: two_lines_def line_def)
  have fresh: "later_uuids 0 \<notin> set (map o_id (orders (shop_sold_once ''paid'' (Some ''upi''))))"
    by (simp add: shop_eval)
  have free: "draws_free later_uuids 1 (length two_lines)
     (map oi_id (orderItems (shop_sold_once ''paid'' (Some ''upi''))))
     (map sm_id (stockMovements (shop_sold_once ''paid'' (Some ''upi''))))"
    by (simp add: shop_eval numeral_2_eq_2)
  have fit: "stock_column_holds two_lines (products (shop_sold_once ''paid'' (Some ''upi'')))"
    by (simp add: vocab_eval decimal_in_eval shop_eval decrement_def minus_exact_def fits_def
          Let_def)
  from createOrder_not_idempotent [OF sell_two_lines noids fresh free fit, of 2000]
  have "\<exists>second d2.
      createOrder later_uuids 2000 paid_order two_lines (shop_sold_once ''paid'' (Some ''upi'')) =
        (Inr second, d2) \<and>
      orders d2 = orders shop @ [stored_order ''u'' 1000 ''paid'' (Some ''upi''), second] \<and>
      o_id (stored_order ''u'' 1000 ''paid'' (Some ''upi'')) \<noteq> o_id second \<and>
      o_orderNumber (stored_order ''u'' 1000 ''paid'' (Some ''upi'')) = io_orderNumber paid_order \<and>
      o_orderNumber second = io_orderNumber paid_order"
    by blast
  with sell_two_lines noids fresh free fit sell_two_lines_again show ?thesis by (intro conjI)
qed


section \<open>The derived reads\<close>

text \<open>
  C7.  \<^verbatim>\<open>getLowStockProducts\<close> returns, of the products the store holds when it is called,
  those of the user whose stock is at most their minimum stock.  The bound is inclusive:
  with a minimum of 10, a stock of 5 or of 10 is low and a stock of 11 is not.  (A product
  without a minimum is never selected.)
\<close>

theorem getLowStockProducts_iff:
  "(p \<in> set (getLowStockProducts userId d) \<longleftrightarrow>
      p \<in> set (products d) \<and> p_userId p = userId \<and> stock_le_minStock p) \<and>
   (stock_le_minStock p \<longleftrightarrow> (\<exists>m. p_minStock p = Some m \<and> p_stock p \<le> m)) \<and>
   stock_le_minStock (p\<lparr>p_stock := 5000, p_minStock := Some 10000\<rparr>) \<and>
   stock_le_minStock (p\<lparr>p_stock := 10000, p_minStock := Some 10000\<rparr>) \<and>
   \<not> stock_le_minStock (p\<lparr>p_stock := 11000, p_minStock := Some 10000\<rparr>)"
  by (auto simp: getLowStockProducts_def stock_le_minStock_def split: option.splits)

text \<open>
  Product A, with a minimum of 8.000, is not low at 10.000 and is low once the sale has
  brought it to 8.000: the answer follows the store.
\<close>

theorem getLowStockProducts_iff_witness:
  "product_A \<notin> set (getLowStockProducts ''user-1'' shop) \<and>
   product_A\<lparr>p_stock := 8000\<rparr> \<in>
     set (getLowStockProducts ''user-1'' (shop_sold_once ''paid'' (Some ''upi'')))"
proof -
  have "\<not> stock_le_minStock product_A"
    by (simp add: stock_le_minStock_def product_A_def)
  moreover have "product_A\<lparr>p_stock := 8000\<rparr> \<in> set (products (shop_sold_once ''paid'' (Some ''upi'')))"
    "p_userId (product_A\<lparr>p_stock := 8000\<rparr>) = ''user-1''"
    "stock_le_minStock (product_A\<lparr>p_stock := 8000\<rparr>)"
    by (simp_all add: shop_sold_once_def shop_def stock_le_minStock_def product_A_def)
  ultimately show ?thesis
    using getLowStockProducts_iff [of product_A "''user-1''" shop]
      getLowStockProducts_iff [of "product_A\<lparr>p_stock := 8000\<rparr>" "''user-1''"
        "shop_sold_once ''paid'' (Some ''upi'')"]
    by blast
qed


text \<open>What the select returns for parameters that have reached the store.\<close>

lemma sum_list_if_filter:
  "sum_list (map (\<lambda>x. if P x then f x else (0::int)) xs) = sum_list (map f (filter P xs))"
  by (induction xs) simp_all

lemma select_daily_sales_sums:
  "ds_total (select_daily_sales userId lo hi d) =
     sum_list (map t_amount (filter (\<lambda>t. t_type t = ''sale'')
       (filter (\<lambda>t. t_userId t = userId \<and> created_between lo hi t) (transactions d))))"
  "ds_count (select_daily_sales userId lo hi d) =
     length (filter (\<lambda>t. t_type t = ''sale'')
       (filter (\<lambda>t. t_userId t = userId \<and> created_between lo hi t) (transactions d)))"
  by (simp_all add: select_daily_sales_def Let_def sum_list_if_filter del: filter_filter)

lemma select_daily_sales_ledger:
  "select_daily_sales ''user-1'' 1754006400000 1754092799999 ledger =
     \<lparr>ds_total = 39050, ds_upiTotal = 10000, ds_count = 3\<rparr>"
  by (simp add: select_daily_sales_def Let_def created_between_def ledger_def ledger_entry_def)

text \<open>
  C6.  \<^verbatim>\<open>getDailySales\<close> returns no sums.  Whatever the user, the date, the time zone of
  the process and the store, the call ends in the driver's error for the first of the two
  \<^verbatim>\<open>Date\<close> parameters, before the query is sent; so it does also for the ledger of the
  example, where the select, had its parameters reached the store, would have returned
  390.50, 100.00 and 3.
\<close>

theorem getDailySales_throws:
  "getDailySales z userId date d = Inl ERR_INVALID_ARG_TYPE \<and>
   getDailySales z ''user-1'' 1754073054057 ledger = Inl ERR_INVALID_ARG_TYPE"
  by (simp add: getDailySales_def Let_def query_parameter_Date_def and_then_def)


section \<open>The route\<close>

lemmas zod_eval = insertOrderSchema_parse_def insertOrderSchema_fields_def z_string_def
  z_string_optional_def z_string_nullish_def z_boolean_nullish_def z_date_nullish_def
  header_json_def

lemma parse_header_json:
  "insertOrderSchema_parse (Some (header_json paymentStatus [])) =
     Inr (header paymentStatus Undefined)"
  "insertOrderSchema_parse (Some (header_json paymentStatus [(''paymentMethod'', JStr m)])) =
     Inr (header paymentStatus (Given m))"
  by (simp_all add: zod_eval header_def)

lemma with_userId_simps:
  "io_userId (with_userId v userId) = userId"
  "io_orderNumber (with_userId v userId) = io_orderNumber v"
  "io_paymentStatus (with_userId v userId) = io_paymentStatus v"
  "io_paymentMethod (with_userId v userId) = io_paymentMethod v"
  by (simp_all add: with_userId_def InsertOrder.extend_def InsertOrder_userId.fields_def)

text \<open>A header that does not validate is answered with 400 and nothing is written.\<close>

lemma post_api_orders_invalid_header:
  assumes "insertOrderSchema_parse (rq_order body) = Inl e"
  shows "post_api_orders g now tid later body d = (status_400 ''Invalid order data'', d)"
  using assms by (simp add: post_api_orders_def)

lemma post_api_orders_storage_error:
  assumes "insertOrderSchema_parse (rq_order body) = Inr v"
    and "createOrder g now (with_userId v ''user-1'') (rq_items body) d = (Inl e, d')"
  shows "post_api_orders g now tid later body d = (status_500 ''Failed to create order'', d)"
proof -
  from assms(2) have "d' = d" by (rule createOrder_Inl_body)
  with assms show ?thesis by (simp add: post_api_orders_def)
qed

text \<open>The ledger insert for an order just created is refused only for its id.\<close>

lemma createTransaction_sale:
  assumes "createOrder g now (with_userId v ''user-1'') items d = (Inr order, d1)"
  shows "tid \<notin> set (map t_id (transactions d)) \<Longrightarrow>
           createTransaction tid later (sale_transaction ''user-1'' order) d1 =
             (Inr (ledger_entry_of tid later order),
              d1\<lparr>transactions := transactions d @ [ledger_entry_of tid later order]\<rparr>)"
    and "tid \<in> set (map t_id (transactions d)) \<Longrightarrow>
           createTransaction tid later (sale_transaction ''user-1'' order) d1 =
             (Inl unique_violation, d1)"
    and "transactions d1 = transactions d"
proof -
  note row = order_row_Inr [OF createOrder_Inr(1) [OF assms]]
  from createOrder_Inr(2) [OF assms] obtain rows moves where
    d1: "d1 = d\<lparr>
           products := stock_taken items (products d),
           orders := orders d @ [order],
           orderItems := orderItems d @ rows,
           stockMovements := stockMovements d @ moves\<rparr>"
    by blast
  from row(7) have "fits 10 (o_totalAmount order)" by (auto simp: numeric_Inr)
  then have amount: "numeric 10 2 (decimal2_out (o_totalAmount order)) = Inr (o_totalAmount order)"
    by (rule numeric_decimal2_out)
  from row(9) have user: "''user-1'' \<in> set (users d1)"
    by (simp add: d1 with_userId_simps)
  from row(4) row(10) have customer: "references_ok (o_customerId order) (customers d1)"
    by (simp add: d1)
  have order: "references_ok (Some (o_id order)) (map o_id (orders d1))"
    by (simp add: d1 references_ok_def)
  show t: "transactions d1 = transactions d" by (simp add: d1)
  show "createTransaction tid later (sale_transaction ''user-1'' order) d1 =
          (Inr (ledger_entry_of tid later order),
           d1\<lparr>transactions := transactions d @ [ledger_entry_of tid later order]\<rparr>)"
    if "tid \<notin> set (map t_id (transactions d))"
    using that amount user customer order
    by (simp add: createTransaction_def transaction_row_def and_then_def sale_transaction_def
          ledger_entry_of_def defaulted_def t)
  show "createTransaction tid later (sale_transaction ''user-1'' order) d1 =
          (Inl unique_violation, d1)"
    if "tid \<in> set (map t_id (transactions d))"
    using that amount
    by (simp add: createTransaction_def transaction_row_def and_then_def sale_transaction_def t)
qed


lemma post_api_orders_created:
  assumes "insertOrderSchema_parse (rq_order body) = Inr v"
    and "createOrder g now (with_userId v ''user-1'') (rq_items body) d = (Inr order, d1)"
  shows "o_paymentStatus order = ''paid'' \<Longrightarrow> tid \<notin> set (map t_id (transactions d)) \<Longrightarrow>
           post_api_orders g now tid later body d =
             (json_200 order,
              d1\<lparr>transactions := transactions d @ [ledger_entry_of tid later order]\<rparr>)"
    and "o_paymentStatus order \<noteq> ''paid'' \<Longrightarrow>
           post_api_orders g now tid later body d = (json_200 order, d1)"
    and "o_paymentStatus order = ''paid'' \<Longrightarrow> tid \<in> set (map t_id (transactions d)) \<Longrightarrow>
           post_api_orders g now tid later body d = (status_500 ''Failed to create order'', d1)"
  using assms createTransaction_sale(1,2) [OF assms(2), of tid later]
  by (simp_all add: post_api_orders_def)

lemma sell_two_lines_header:
  "createOrder uuids 1000 (with_userId (header paymentStatus paymentMethod) ''user-1'') two_lines shop =
     (Inr (stored_order ''u'' 1000 paymentStatus (nullable paymentMethod)),
      shop_sold_once paymentStatus (nullable paymentMethod))"
  by (simp add: tx_eval row_eval decimal_in_eval shop_eval Let_def)

lemma sell_two_lines_ledger:
  "createOrder uuids 1000 (with_userId (header paymentStatus paymentMethod) ''user-1'') two_lines ledger =
     (Inr (stored_order ''u'' 1000 paymentStatus (nullable paymentMethod)),
      (shop_sold_once paymentStatus (nullable paymentMethod))\<lparr>transactions := transactions ledger\<rparr>)"
  by (simp add: tx_eval row_eval decimal_in_eval shop_eval ledger_def Let_def)

text \<open>
  C4, as the claim states it, fails for an order that is paid and names no payment
  method: the ledger entry is paid by "cash", which is not the order's payment method.
\<close>

theorem post_api_orders_cash_counterexample:
  "post_api_orders uuids 1000 ''t'' 1001 (request ''paid'' []) shop =
     (json_200 (stored_order ''u'' 1000 ''paid'' None),
      (shop_sold_once ''paid'' None)\<lparr>transactions :=
         [ledger_entry_of ''t'' 1001 (stored_order ''u'' 1000 ''paid'' None)]\<rparr>) \<and>
   o_paymentMethod (stored_order ''u'' 1000 ''paid'' None) = None \<and>
   t_paymentMethod (ledger_entry_of ''t'' 1001 (stored_order ''u'' 1000 ''paid'' None)) = ''cash''"
proof -
  have parse: "insertOrderSchema_parse (rq_order (request ''paid'' [])) =
      Inr (header ''paid'' Undefined)"
    by (simp add: request_def parse_header_json)
  have sell: "createOrder uuids 1000 (with_userId (header ''paid'' Undefined) ''user-1'')
      (rq_items (request ''paid'' [])) shop =
      (Inr (stored_order ''u'' 1000 ''paid'' None), shop_sold_once ''paid'' None)"
    using sell_two_lines_header [of "''paid''" Undefined] by (simp add: request_def nullable_def)
  have "post_api_orders uuids 1000 ''t'' 1001 (request ''paid'' []) shop =
     (json_200 (stored_order ''u'' 1000 ''paid'' None),
      (shop_sold_once ''paid'' None)\<lparr>transactions :=
         transactions shop @ [ledger_entry_of ''t'' 1001 (stored_order ''u'' 1000 ''paid'' None)]\<rparr>)"
    by (rule post_api_orders_created(1) [OF parse sell])
       (simp_all add: stored_order_def shop_def)
  then show ?thesis
    by (simp add: shop_def) (simp add: ledger_entry_of_def stored_order_def paymentMethod_or_cash_def)
qed

text \<open>
  C4, amended.  When the order has been created, the route appends the ledger entry of
  the order if and only if the order's payment status is "paid": a sale linked to the
  order and its customer, for the order's total, paid by the order's payment method or,
  when the order has none, by cash.  The append is a second write on the committed
  store: when it is refused (here, for an id already taken) the request is answered with
  500 and the order stays.
\<close>

theorem post_api_orders_ledger:
  assumes "insertOrderSchema_parse (rq_order body) = Inr v"
    and "createOrder g now (with_userId v ''user-1'') (rq_items body) d = (Inr order, d1)"
  shows "(o_paymentStatus order = ''paid'' \<and> tid \<notin> set (map t_id (transactions d)) \<longrightarrow>
            post_api_orders g now tid later body d =
              (json_200 order,
               d1\<lparr>transactions := transactions d @ [ledger_entry_of tid later order]\<rparr>)) \<and>
         (o_paymentStatus order \<noteq> ''paid'' \<longrightarrow>
            post_api_orders g now tid later body d = (json_200 order, d1)) \<and>
         (o_paymentStatus order = ''paid'' \<and> tid \<in> set (map t_id (transactions d)) \<longrightarrow>
            post_api_orders g now tid later body d =
              (status_500 ''Failed to create order'', d1)) \<and>
         transactions d1 = transactions d \<and>
         orders d1 = orders d @ [order]"
proof -
  from createOrder_Inr(2) [OF assms(2)] have "orders d1 = orders d @ [order]" by auto
  with post_api_orders_created [OF assms] createTransaction_sale(3) [OF assms(2)]
  show ?thesis by blast
qed

text \<open>
  The two lines, paid by UPI: answered with the order, and the ledger gains its entry.
  The same, payment pending: answered with the order, and the ledger is as it was.
  Paid by UPI again, on a store where the id drawn for the entry is taken: answered with
  500, and the order and its rows are in the store.
\<close>

theorem post_api_orders_ledger_witness:
  "post_api_orders uuids 1000 ''t'' 1001 (request ''paid'' [(''paymentMethod'', JStr ''upi'')]) shop =
     (json_200 (stored_order ''u'' 1000 ''paid'' (Some ''upi'')),
      (shop_sold_once ''paid'' (Some ''upi''))\<lparr>transactions := transactions shop @
         [ledger_entry_of ''t'' 1001 (stored_order ''u'' 1000 ''paid'' (Some ''upi''))]\<rparr>) \<and>
   post_api_orders uuids 1000 ''t'' 1001 (request ''pending'' []) shop =
     (json_200 (stored_order ''u'' 1000 ''pending'' None), shop_sold_once ''pending'' None) \<and>
   post_api_orders uuids 1000 ''t1'' 1001 (request ''paid'' [(''paymentMethod'', JStr ''upi'')]) ledger =
     (status_500 ''Failed to create order'',
      (shop_sold_once ''paid'' (Some ''upi''))\<lparr>transactions := transactions ledger\<rparr>)"
proof -
  have parse: "insertOrderSchema_parse (rq_order (request ''paid'' [(''paymentMethod'', JStr ''upi'')])) =
      Inr (header ''paid'' (Given ''upi''))"
      "insertOrderSchema_parse (rq_order (request ''pending'' [])) =
      Inr (header ''pending'' Undefined)"
    by (simp_all add: request_def parse_header_json)
  have sell: "createOrder uuids 1000 (with_userId (header ''paid'' (Given ''upi'')) ''user-1'')
      (rq_items (request ''paid'' [(''paymentMethod'', JStr ''upi'')])) shop =
      (Inr (stored_order ''u'' 1000 ''paid'' (Some ''upi'')), shop_sold_once ''paid'' (Some ''upi''))"
    "createOrder uuids 1000 (with_userId (header ''pending'' Undefined) ''user-1'')
      (rq_items (request ''pending'' [])) shop =
      (Inr (stored_order ''u'' 1000 ''pending'' None), shop_sold_once ''pending'' None)"
    "createOrder uuids 1000 (with_userId (header ''paid'' (Given ''upi'')) ''user-1'')
      (rq_items (request ''paid'' [(''paymentMethod'', JStr ''upi'')])) ledger =
      (Inr (stored_order ''u'' 1000 ''paid'' (Some ''upi'')),
       (shop_sold_once ''paid'' (Some ''upi''))\<lparr>transactions := transactions ledger\<rparr>)"
    using sell_two_lines_header [of "''paid''" "Given ''upi''"]
      sell_two_lines_header [of "''pending''" Undefined]
      sell_two_lines_ledger [of "''paid''" "Given ''upi''"]
    by (simp_all add: request_def nullable_def)
  have status: "o_paymentStatus (stored_order ''u'' 1000 ''paid'' (Some ''upi'')) = ''paid''"
    "o_paymentStatus (stored_order ''u'' 1000 ''pending'' None) \<noteq> ''paid''"
    by (simp_all add: stored_order_def)
  have ids: "''t'' \<notin> set (map t_id (transactions shop))"
    "''t1'' \<in> set (map t_id (transactions ledger))"
    by (simp_all add: shop_def ledger_def ledger_entry_def)
  from post_api_orders_ledger [OF parse(1) sell(1), of "''t''" 1001]
    post_api_orders_ledger [OF parse(2) sell(2), of "''t''" 1001]
    post_api_orders_ledger [OF parse(1) sell(3), of "''t1''" 1001]
    status ids
  show ?thesis by blast
qed

text \<open>
  C3 at a request whose header validates and whose only line lacks its \<^verbatim>\<open>productId\<close>:
  the items are handed to \<^verbatim>\<open>createOrder\<close> as they came, the order and the item are sent
  to the store, the store refuses the item, and the answer is 500, not 400.  The store
  is unchanged because the transaction is rolled back.
\<close>

theorem post_api_orders_unvalidated_item:
  "insertOrderSchema_parse (rq_order request_without_product) = Inr (header ''paid'' (Given ''upi'')) \<and>
   post_api_orders uuids 1000 ''t'' 1001 request_without_product shop =
     (status_500 ''Failed to create order'', shop) \<and>
   createOrder_statements uuids 1000 paid_order [line_without_product] shop =
     [InsertOrders paid_order, InsertOrderItems (line_without_product\<lparr>ii_orderId := Some ''u''\<rparr>)]"
proof -
  have parse: "insertOrderSchema_parse (rq_order request_without_product) =
      Inr (header ''paid'' (Given ''upi''))"
    by (simp add: request_without_product_def parse_header_json)
  have fail: "createOrder uuids 1000 (with_userId (header ''paid'' (Given ''upi'')) ''user-1'')
      (rq_items request_without_product) shop = (Inl not_null_violation, shop)"
    by (simp add: request_without_product_def line_without_product_def tx_eval row_eval
          decimal_in_eval shop_eval)
  have sent: "createOrder_statements uuids 1000 paid_order [line_without_product] shop =
     [InsertOrders paid_order, InsertOrderItems (line_without_product\<lparr>ii_orderId := Some ''u''\<rparr>)]"
    by (simp add: createOrder_statements_def line_without_product_def tx_eval row_eval
          decimal_in_eval shop_eval)
  from parse post_api_orders_storage_error [OF parse fail] sent show ?thesis by blast
qed

end
